theory Spec2Isabelle
  imports Main "HOL-Library.Word"
begin

unbundle bit_operations_syntax

section \<open>SerialPipe: a serial-to-WiFi bridge for the ESP8266\<close>

text \<open>
  A shallow embedding of \<^verbatim>\<open>SerialPipe.ino\<close>: the persisted configuration record with
  its CRC-8 guard, the boot-time mode decision, the start-up of the bridge and the
  per-tick bridging function \<^verbatim>\<open>serialPipe()\<close>. Library objects (\<^verbatim>\<open>Serial\<close>,
  \<^verbatim>\<open>LittleFS\<close>, \<^verbatim>\<open>WiFi\<close>, \<^verbatim>\<open>WiFiServer\<close>, \<^verbatim>\<open>WiFiClient\<close>) are records that hold
  what the sketch can observe of them; answers that depend on the outside world (mount
  results, clock readings, console input) are scripted in those records or passed as
  arguments. Diagnostic text printed on the console at boot is not part of the model; the
  messages of the bridge's debug logger are, as values of a datatype.
\<close>

subsection \<open>Constants\<close>

type_synonym byte = "8 word"
type_synonym u32 = "32 word"

text \<open>Text as the bytes of a C string literal, without the terminating NUL.\<close>

definition c_bytes :: "string \<Rightarrow> byte list" where
  "c_bytes s = map of_char s"

definition CONFIGURATION_KEY :: byte where
  "CONFIGURATION_KEY = of_char CHR ''c''"

definition DEFAULT_BAUD_DUT :: u32 where
  "DEFAULT_BAUD_DUT = 115200"

definition DEFAULT_BAUD_LOGGER :: u32 where
  "DEFAULT_BAUD_LOGGER = 115200"

definition RXBUFFERSIZE :: nat where
  "RXBUFFERSIZE = 1024"

definition STACK_PROTECTOR :: nat where
  "STACK_PROTECTOR = 512"

text \<open>The two string macros with their terminating NUL, as \<^verbatim>\<open>sizeof\<close> counts them.\<close>

definition DEFAULT_SSID :: "byte list" where
  "DEFAULT_SSID = c_bytes ''default'' @ [0]"

definition DEFAULT_PSK :: "byte list" where
  "DEFAULT_PSK = c_bytes ''undefined'' @ [0]"

definition DEFAULT_LISTEN_PORT :: u32 where
  "DEFAULT_LISTEN_PORT = 23"

text \<open>
  A \<^verbatim>\<open>float\<close> is carried as its IEEE-754 single-precision bit pattern; the sketch only
  stores, copies and passes on the transmit power. \<^verbatim>\<open>12.0\<close> is \<^verbatim>\<open>0x41400000\<close>.
\<close>

definition DEFAULT_TX_POWER :: u32 where
  "DEFAULT_TX_POWER = 0x41400000"

definition MAX_SRV_CLIENTS :: nat where
  "MAX_SRV_CLIENTS = 2"

definition CONFIG_CONSOLE_BAUD_SERIAL :: u32 where
  "CONFIG_CONSOLE_BAUD_SERIAL = 115200"

definition CONFIG_CONSOLE_ENTRY_DELAY_MS :: u32 where
  "CONFIG_CONSOLE_ENTRY_DELAY_MS = 1000"

definition STATUS_LED_ON_MS :: u32 where
  "STATUS_LED_ON_MS = 100"

definition STATUS_LED_OFF_MS :: u32 where
  "STATUS_LED_OFF_MS = 5000"

subsection \<open>CRC-8\<close>

text \<open>
  The inner \<^verbatim>\<open>for (byte tempI = 8; tempI; tempI--)\<close> loop of \<^verbatim>\<open>CRC8\<close>, with its
  8-bit counter.
\<close>

function CRC8_bits :: "byte \<Rightarrow> byte \<Rightarrow> byte \<Rightarrow> byte" where
  "CRC8_bits tempI crc extract =
     (if tempI = 0 then crc
      else let sum = (crc XOR extract) AND 0x01;
               crc1 = drop_bit 1 crc;
               crc2 = (if sum \<noteq> 0 then crc1 XOR 0x8C else crc1)
           in CRC8_bits (tempI - 1) crc2 (drop_bit 1 extract))"
  by pat_completeness auto
termination
  by (relation "measure (\<lambda>(tempI, crc, extract). unat tempI)")
     (auto simp: unat_minus_one unat_gt_0)

declare CRC8_bits.simps [simp del]

text \<open>
  The outer \<^verbatim>\<open>while (len--)\<close> loop. \<open>data\<close> is the memory from the pointer onwards,
  \<open>len\<close> the 8-bit length argument; reading past the end of the object is \<open>None\<close>.
\<close>

function CRC8_loop :: "byte list \<Rightarrow> byte \<Rightarrow> byte \<Rightarrow> byte option" where
  "CRC8_loop data len crc =
     (if len = 0 then Some crc
      else case data of
             [] \<Rightarrow> None
           | extract # rest \<Rightarrow> CRC8_loop rest (len - 1) (CRC8_bits 8 crc extract))"
  by pat_completeness auto
termination
  by (relation "measure (\<lambda>(data, len, crc). unat len)")
     (auto simp: unat_minus_one unat_gt_0)

declare CRC8_loop.simps [simp del]

definition CRC8 :: "byte list \<Rightarrow> byte \<Rightarrow> byte option" where
  "CRC8 data len = CRC8_loop data len 0x00"

text \<open>
  The reference CRC-8 in the words of the specification: start from 0; for each byte in
  order, eight rounds that test the low bit of crc XOR byte, shift crc right, XOR in
  \<^verbatim>\<open>0x8C\<close> when the tested bit was 1, and shift the byte right.
\<close>

definition crc8_ref_bit :: "byte \<times> byte \<Rightarrow> byte \<times> byte" where
  "crc8_ref_bit = (\<lambda>(crc, b).
     (if bit (crc XOR b) 0 then drop_bit 1 crc XOR 0x8C else drop_bit 1 crc, drop_bit 1 b))"

definition crc8_ref_byte :: "byte \<Rightarrow> byte \<Rightarrow> byte" where
  "crc8_ref_byte crc b = fst ((crc8_ref_bit ^^ 8) (crc, b))"

definition crc8_ref :: "byte list \<Rightarrow> byte" where
  "crc8_ref bs = foldl crc8_ref_byte 0 bs"

text \<open>A single bit of a byte sequence flipped: bit \<open>j\<close> of byte \<open>i\<close>.\<close>

definition flip_bit_at :: "nat \<Rightarrow> nat \<Rightarrow> byte list \<Rightarrow> byte list" where
  "flip_bit_at i j bs = bs[i := (bs ! i) XOR push_bit j 1]"

text \<open>One round of the shift register on crc XOR byte; used to analyse the CRC.\<close>

definition crc8_shift :: "byte \<Rightarrow> byte" where
  "crc8_shift d = (if bit d 0 then drop_bit 1 d XOR 0x8C else drop_bit 1 d)"

subsection \<open>The configuration structs\<close>

text \<open>
  \<^verbatim>\<open>char ssid[32]\<close> and \<^verbatim>\<open>char psk[64]\<close> are byte lists, of those lengths in a
  well-formed value; \<^verbatim>\<open>float tx_power\<close> is its bit pattern; \<^verbatim>\<open>int listen_port\<close> and
  the two \<^verbatim>\<open>uint32_t\<close> baud rates are 32-bit words.
\<close>

record wifi_settings_t =
  ssid :: "byte list"
  psk :: "byte list"
  tx_power :: u32
  listen_port :: u32

record uart_settings_t =
  log_baud_rate :: u32
  dut_baud_rate :: u32

record serialpipe_config_t =
  wifi :: wifi_settings_t
  uart :: uart_settings_t

definition valid_config :: "serialpipe_config_t \<Rightarrow> bool" where
  "valid_config cfg \<longleftrightarrow> length (ssid (wifi cfg)) = 32 \<and> length (psk (wifi cfg)) = 64"

text \<open>The text held in a \<^verbatim>\<open>char\<close> array: the bytes before the first NUL.\<close>

definition c_str :: "byte list \<Rightarrow> byte list" where
  "c_str bs = takeWhile (\<lambda>b. b \<noteq> 0) bs"

text \<open>
  What a callee reads through a \<^verbatim>\<open>char *\<close> that points \<open>k\<close> bytes into an object whose
  bytes are \<open>obj\<close>: the bytes from there up to the first NUL, past the end of the array
  it points into when that array holds none, and \<open>None\<close> when there is no NUL before
  the end of the object.
\<close>

definition c_str_at :: "nat \<Rightarrow> byte list \<Rightarrow> byte list option" where
  "c_str_at k obj =
     (if 0 \<in> set (drop k obj) then Some (takeWhile (\<lambda>b. b \<noteq> 0) (drop k obj)) else None)"

text \<open>
  The object representation that \<^verbatim>\<open>memcpy\<close>, \<^verbatim>\<open>memset\<close> and the \<^verbatim>\<open>(uint8_t *)\<close>
  cast see. The ESP8266 is little-endian and aligns 4-byte scalars to 4, so
  \<^verbatim>\<open>serialpipe_config_t\<close> has its fields at offsets 0, 32, 96, 100, 104 and 108 and
  \<^verbatim>\<open>sizeof(serialpipe_config_t)\<close> is 112.
\<close>

definition le32 :: "u32 \<Rightarrow> byte list" where
  "le32 w = [ucast w, ucast (drop_bit 8 w), ucast (drop_bit 16 w), ucast (drop_bit 24 w)]"

definition le32_of :: "byte list \<Rightarrow> u32" where
  "le32_of bs = foldr (\<lambda>b acc. ucast b OR push_bit 8 acc) bs 0"

definition sizeof_serialpipe_config_t :: nat where
  "sizeof_serialpipe_config_t = 112"

definition config_bytes :: "serialpipe_config_t \<Rightarrow> byte list" where
  "config_bytes cfg =
     ssid (wifi cfg) @ psk (wifi cfg) @ le32 (tx_power (wifi cfg)) @ le32 (listen_port (wifi cfg))
     @ le32 (log_baud_rate (uart cfg)) @ le32 (dut_baud_rate (uart cfg))"

definition config_of_bytes :: "byte list \<Rightarrow> serialpipe_config_t" where
  "config_of_bytes bs =
     \<lparr>wifi = \<lparr>ssid = take 32 bs,
              psk = take 64 (drop 32 bs),
              tx_power = le32_of (take 4 (drop 96 bs)),
              listen_port = le32_of (take 4 (drop 100 bs))\<rparr>,
      uart = \<lparr>log_baud_rate = le32_of (take 4 (drop 104 bs)),
              dut_baud_rate = le32_of (take 4 (drop 108 bs))\<rparr>\<rparr>"

text \<open>
  \<^verbatim>\<open>serialpipe_config_file_t\<close> is the configuration followed by the \<^verbatim>\<open>crc\<close> byte and
  by whatever padding the compiler adds to round the struct up to its alignment: \<open>pad\<close>
  bytes, a parameter of the model (3 on the ESP8266, where the struct is 4-aligned;
  0 for a packed layout). A value of the struct is handled as its bytes.
\<close>

definition sizeof_serialpipe_config_file_t :: "nat \<Rightarrow> nat" where
  "sizeof_serialpipe_config_file_t pad = sizeof_serialpipe_config_t + 1 + pad"

definition file_config :: "byte list \<Rightarrow> byte list" where
  "file_config sp_file = take sizeof_serialpipe_config_t sp_file"

definition file_crc :: "byte list \<Rightarrow> byte" where
  "file_crc sp_file = sp_file ! sizeof_serialpipe_config_t"

text \<open>\<^verbatim>\<open>memcpy(dst, src, sizeof(src))\<close> into the front of an array at least that long.\<close>

definition memcpy_front :: "byte list \<Rightarrow> byte list \<Rightarrow> byte list" where
  "memcpy_front dst src = take (length dst) (src @ drop (length src) dst)"

subsection \<open>The collaborators\<close>

text \<open>
  The filesystem: the answers of the coming \<^verbatim>\<open>LittleFS.begin()\<close> calls (it mounts once
  the script is used up), the content of \<^verbatim>\<open>/serialpipe.conf\<close> if the file exists, and
  how many bytes one \<^verbatim>\<open>write\<close> or \<^verbatim>\<open>readBytes\<close> call gets through.
\<close>

record LittleFS_t =
  mount_answers :: "bool list"
  conf_file :: "byte list option"
  write_room :: nat
  read_room :: nat

definition LittleFS_begin :: "LittleFS_t \<Rightarrow> bool \<times> LittleFS_t" where
  "LittleFS_begin fs =
     (case mount_answers fs of
        [] \<Rightarrow> (True, fs)
      | a # as \<Rightarrow> (a, fs\<lparr>mount_answers := as\<rparr>))"

definition LittleFS_format :: "LittleFS_t \<Rightarrow> LittleFS_t" where
  "LittleFS_format fs = fs\<lparr>conf_file := None\<rparr>"

text \<open>A file opened for reading that does not exist has size 0 and reads nothing.\<close>

definition File_size :: "LittleFS_t \<Rightarrow> nat" where
  "File_size fs = (case conf_file fs of None \<Rightarrow> 0 | Some bs \<Rightarrow> length bs)"

definition File_readBytes :: "nat \<Rightarrow> LittleFS_t \<Rightarrow> byte list" where
  "File_readBytes n fs =
     (case conf_file fs of None \<Rightarrow> [] | Some bs \<Rightarrow> take (min n (read_room fs)) bs)"

text \<open>Opening for writing truncates; \<^verbatim>\<open>write\<close> returns how many bytes it stored.\<close>

definition LittleFS_open_w :: "LittleFS_t \<Rightarrow> LittleFS_t" where
  "LittleFS_open_w fs = fs\<lparr>conf_file := Some []\<rparr>"

definition File_write :: "byte list \<Rightarrow> LittleFS_t \<Rightarrow> nat \<times> LittleFS_t" where
  "File_write bs fs =
     (let n = min (length bs) (write_room fs)
      in (n, fs\<lparr>conf_file := Some ((case conf_file fs of None \<Rightarrow> [] | Some old \<Rightarrow> old)
                                     @ take n bs)\<rparr>))"

text \<open>
  The hardware UART: its rate, whether \<^verbatim>\<open>swap()\<close> has moved it to GPIO15/GPIO13, the
  received bytes not yet read, the room left in the transmit buffer and the bytes
  written so far.
\<close>

record HardwareSerial =
  baud :: u32
  rx_size :: nat
  swapped :: bool
  rx_buf :: "byte list"
  tx_free :: nat
  tx_out :: "byte list"

text \<open>The messages of the debug logger, one constructor per \<^verbatim>\<open>print\<close> of the sketch.\<close>

datatype log_msg =
    LogVersionLabel
  | LogFullVersion
  | LogSerialBaud u32 u32
  | LogRxBufferSize nat
  | LogTxPowerSetTo u32
  | LogConnectingTo "byte list"
  | LogDot
  | LogConnected
  | LogReady u32
  | LogSwitching
  | LogNewClient nat
  | LogServerBusy nat
  | LogCongested
  | LogLenMismatch nat nat nat

record SoftwareSerial =
  sw_baud :: u32
  sw_rx :: "byte list"
  sw_out :: "log_msg list"

text \<open>
  A network client: who is at the other end, whether the connection is up (what
  \<^verbatim>\<open>connected()\<close> and the test \<^verbatim>\<open>if (client)\<close> return, which the source takes to be
  the same), the bytes
  received from the peer and not yet read, the bytes written to it, and the two answers
  of \<^verbatim>\<open>availableForWrite()\<close> the tick asks for: while it computes the fairness bound
  and again when it pushes the chunk (the source expects that the value may have
  changed in between).
\<close>

record WiFiClient =
  remote :: nat
  connected :: bool
  inbox :: "byte list"
  outbox :: "byte list"
  afw_scan :: nat
  afw_push :: nat

text \<open>
  The listening socket: its port (a \<^verbatim>\<open>uint16_t\<close>), the connections offered and not yet
  taken (\<^verbatim>\<open>hasClient()\<close>), and the temporaries that were taken with \<^verbatim>\<open>available()\<close>
  and went out of scope.
\<close>

record WiFiServer =
  port :: "16 word"
  no_delay :: bool
  backlog :: "WiFiClient list"
  dropped :: "WiFiClient list"

text \<open>
  The radio: the output power last set, and the two strings last given to
  \<^verbatim>\<open>WiFi.begin\<close>; \<^verbatim>\<open>status_answers\<close> scripts whether each coming \<^verbatim>\<open>WiFi.status()\<close> is
  \<^verbatim>\<open>WL_CONNECTED\<close>.
\<close>

record WiFi_t =
  output_power :: u32
  sta_mode :: bool
  sta_ssid :: "byte list"
  sta_psk :: "byte list"
  status_answers :: "bool list"

text \<open>The globals of the sketch and the collaborators, as one state.\<close>

record system =
  status_led_state :: bool
  status_led_change_ms :: u32
  serverClients :: "WiFiClient list"
  configuration_mode :: bool
  serialpipe_config :: serialpipe_config_t
  Serial :: HardwareSerial
  logger :: SoftwareSerial
  server :: WiFiServer
  WiFi :: WiFi_t
  LittleFS :: LittleFS_t
  LED_BUILTIN :: bool
  millis :: u32

text \<open>
  How a function that may not return ends: it returns, it parks in \<^verbatim>\<open>while(1)\<close>, it
  reads outside an object, or it is still waiting when the scripted answers run out.
\<close>

datatype 'a outcome = Done 'a | Halted | Fault | Waiting

subsection \<open>ConfigStore: defaults, save and load\<close>

definition set_default_config :: "system \<Rightarrow> system" where
  "set_default_config s =
     (let zeroed = config_of_bytes (replicate sizeof_serialpipe_config_t 0)
      in s\<lparr>serialpipe_config :=
            \<lparr>wifi = \<lparr>ssid = memcpy_front (ssid (wifi zeroed)) DEFAULT_SSID,
                     psk = memcpy_front (psk (wifi zeroed)) DEFAULT_PSK,
                     tx_power = DEFAULT_TX_POWER,
                     listen_port = DEFAULT_LISTEN_PORT\<rparr>,
             uart = \<lparr>log_baud_rate = DEFAULT_BAUD_LOGGER,
                     dut_baud_rate = DEFAULT_BAUD_DUT\<rparr>\<rparr>\<rparr>)"

text \<open>
  \<^verbatim>\<open>save_config\<close>. The local \<^verbatim>\<open>sp_file\<close> is not initialised: \<open>junk\<close> gives what the stack
  holds at each of its offsets, which is what the padding bytes keep.
\<close>

definition save_config :: "nat \<Rightarrow> (nat \<Rightarrow> byte) \<Rightarrow> system \<Rightarrow> system outcome" where
  "save_config pad junk s =
     (case CRC8 (config_bytes (serialpipe_config s)) (of_nat sizeof_serialpipe_config_t) of
        None \<Rightarrow> Fault
      | Some crc \<Rightarrow>
          (let sp_file = config_bytes (serialpipe_config s) @ [crc]
                         @ map junk [sizeof_serialpipe_config_t + 1 ..<
                                     sizeof_serialpipe_config_file_t pad];
               (ok, fs) = LittleFS_begin (LittleFS s)
           in if \<not> ok then Done (s\<lparr>LittleFS := fs\<rparr>)
              else let (bytes_written, fs') =
                         File_write (take (sizeof_serialpipe_config_file_t pad) sp_file)
                                    (LittleFS_open_w fs)
                   in Done (s\<lparr>LittleFS := fs'\<rparr>)))"

text \<open>\<^verbatim>\<open>load_config\<close>, from the \<^verbatim>\<open>open\<close> on; the mount comes below.\<close>

definition load_record :: "nat \<Rightarrow> (nat \<Rightarrow> byte) \<Rightarrow> system \<Rightarrow> system outcome" where
  "load_record pad junk s =
     (let use_defaults = (\<lambda>s'. save_config pad junk (set_default_config s'))
      in if File_size (LittleFS s) = sizeof_serialpipe_config_file_t pad then
           (let got = File_readBytes (sizeof_serialpipe_config_file_t pad) (LittleFS s);
                sp_file = got @ map junk [length got ..< sizeof_serialpipe_config_file_t pad]
            in case CRC8 (file_config sp_file) (of_nat sizeof_serialpipe_config_t) of
                 None \<Rightarrow> Fault
               | Some crc \<Rightarrow>
                   (let bytes_read = (if file_crc sp_file \<noteq> crc then 0 else length got);
                        s' = s\<lparr>serialpipe_config := config_of_bytes (file_config sp_file)\<rparr>
                    in if bytes_read \<noteq> sizeof_serialpipe_config_file_t pad
                       then use_defaults s' else Done s'))
         else use_defaults s)"

definition load_config :: "nat \<Rightarrow> (nat \<Rightarrow> byte) \<Rightarrow> system \<Rightarrow> system outcome" where
  "load_config pad junk s =
     (let (ok, fs) = LittleFS_begin (LittleFS s)
      in if \<not> ok then
           (let (ok', fs') = LittleFS_begin (LittleFS_format fs)
            in if \<not> ok' then Halted else load_record pad junk (s\<lparr>LittleFS := fs'\<rparr>))
         else load_record pad junk (s\<lparr>LittleFS := fs\<rparr>))"


text \<open>
  Healthy storage: every mount that is still to come succeeds, and a write or a read of
  a whole record goes through.
\<close>

definition healthy_storage :: "nat \<Rightarrow> LittleFS_t \<Rightarrow> bool" where
  "healthy_storage pad fs \<longleftrightarrow>
     list_all id (mount_answers fs)
     \<and> sizeof_serialpipe_config_file_t pad \<le> write_room fs
     \<and> sizeof_serialpipe_config_file_t pad \<le> read_room fs"

text \<open>
  What \<^verbatim>\<open>load_config\<close> accepts: a file of the expected size whose \<^verbatim>\<open>crc\<close> byte is the
  CRC-8 of its configuration bytes.
\<close>

definition intact_record :: "nat \<Rightarrow> byte list option \<Rightarrow> bool" where
  "intact_record pad f =
     (case f of
        None \<Rightarrow> False
      | Some bs \<Rightarrow> length bs = sizeof_serialpipe_config_file_t pad
                   \<and> CRC8 (file_config bs) (of_nat sizeof_serialpipe_config_t) = Some (file_crc bs))"

text \<open>The filesystem after a successful mount and a whole write of \<open>bs\<close>.\<close>

definition stored :: "byte list \<Rightarrow> LittleFS_t \<Rightarrow> LittleFS_t" where
  "stored bs fs = (snd (LittleFS_begin fs))\<lparr>conf_file := Some bs\<rparr>"

text \<open>The content of the configuration file, if there is one.\<close>

definition stored_record :: "system \<Rightarrow> byte list option" where
  "stored_record s = conf_file (LittleFS s)"

subsection \<open>BridgeEngine: start-up\<close>

definition HardwareSerial_begin :: "u32 \<Rightarrow> HardwareSerial \<Rightarrow> HardwareSerial" where
  "HardwareSerial_begin rate ser = ser\<lparr>baud := rate\<rparr>"

definition HardwareSerial_swap :: "HardwareSerial \<Rightarrow> HardwareSerial" where
  "HardwareSerial_swap ser = ser\<lparr>swapped := \<not> swapped ser\<rparr>"

definition logger_print :: "log_msg \<Rightarrow> system \<Rightarrow> system" where
  "logger_print m s = s\<lparr>logger := (logger s)\<lparr>sw_out := sw_out (logger s) @ [m]\<rparr>\<rparr>"

text \<open>
  \<^verbatim>\<open>setupSerialPipe\<close> hands \<^verbatim>\<open>WiFi.begin\<close> and the logger the addresses of the \<^verbatim>\<open>ssid\<close> and
  \<^verbatim>\<open>psk\<close> arrays, at offsets 0 and 32 of \<^verbatim>\<open>serialpipe_config\<close>: what is read there are C
  strings within the bytes of the struct. \<^verbatim>\<open>server.begin\<close> takes a \<^verbatim>\<open>uint16_t\<close>, so the
  \<^verbatim>\<open>int\<close> \<^verbatim>\<open>listen_port\<close> is cut to its low 16 bits; the log line prints the \<^verbatim>\<open>int\<close>.

  The \<^verbatim>\<open>while (WiFi.status() != WL_CONNECTED)\<close> loop over the scripted answers: the
  number of dots printed and the answers left, or \<open>None\<close> when the script ends before
  the link is up.
\<close>

fun await_connection :: "bool list \<Rightarrow> (nat \<times> bool list) option" where
  "await_connection [] = None"
| "await_connection (up # answers) =
     (if up then Some (0, answers)
      else map_option (\<lambda>(dots, rest). (Suc dots, rest)) (await_connection answers))"

definition setupSerialPipe :: "system \<Rightarrow> system outcome" where
  "setupSerialPipe s =
     (let cfg = serialpipe_config s;
          s1 = s\<lparr>Serial := HardwareSerial_swap
                     ((HardwareSerial_begin (dut_baud_rate (uart cfg)) (Serial s))
                        \<lparr>rx_size := RXBUFFERSIZE\<rparr>),
                LED_BUILTIN := False,
                logger := \<lparr>sw_baud = log_baud_rate (uart cfg), sw_rx = [],
                           sw_out = [LogVersionLabel, LogFullVersion,
                                     LogSerialBaud (dut_baud_rate (uart cfg))
                                       (log_baud_rate (uart cfg) * 8 div 10 div 1024),
                                     LogRxBufferSize RXBUFFERSIZE]\<rparr>\<rparr>;
          s2 = logger_print LogVersionLabel
                 (s1\<lparr>WiFi := (WiFi s1)\<lparr>output_power := DEFAULT_TX_POWER\<rparr>\<rparr>)
      in case c_str_at 0 (config_bytes cfg) of
           None \<Rightarrow> Fault
         | Some ssid_arg \<Rightarrow>
        (case c_str_at 32 (config_bytes cfg) of
           None \<Rightarrow> Fault
         | Some psk_arg \<Rightarrow>
        (let s3 = s2\<lparr>WiFi := (WiFi s2)\<lparr>sta_mode := True,
                                        sta_ssid := ssid_arg,
                                        sta_psk := psk_arg\<rparr>\<rparr>;
             s4 = logger_print (LogConnectingTo ssid_arg)
                    (logger_print (LogTxPowerSetTo (tx_power (wifi cfg))) s3)
         in case await_connection (status_answers (WiFi s4)) of
              None \<Rightarrow> Waiting
            | Some (dots, rest) \<Rightarrow>
                (let s5 = s4\<lparr>WiFi := (WiFi s4)\<lparr>status_answers := rest\<rparr>,
                             logger := (logger s4)\<lparr>sw_out := sw_out (logger s4)
                                          @ replicate dots LogDot @ [LogConnected]\<rparr>\<rparr>;
                     s6 = s5\<lparr>server := (server s5)\<lparr>port := ucast (listen_port (wifi cfg)),
                                                    no_delay := True\<rparr>\<rparr>
                 in Done (logger_print (LogReady (listen_port (wifi cfg))) s6)))))"

definition setupConfigurationConsole :: "system \<Rightarrow> system" where
  "setupConfigurationConsole s =
     s\<lparr>Serial := HardwareSerial_begin CONFIG_CONSOLE_BAUD_SERIAL (Serial s),
       configuration_mode := True\<rparr>"

subsection \<open>ModeSelector: the boot-time decision\<close>

text \<open>
  The polling loop of \<^verbatim>\<open>setup()\<close>. Each round reads the console
  (\<^verbatim>\<open>Serial.read()\<close>, \<open>-1\<close> when nothing is there, cut to a \<^verbatim>\<open>char\<close>) and, when the
  byte is not the key, reads the clock: \<open>polls\<close> scripts both answers round by round.
  \<^verbatim>\<open>millis()\<close> counts from boot. The result is the last \<^verbatim>\<open>ch\<close>, or \<open>None\<close> when the
  script ends with the loop still running.
\<close>

fun wait_for_key :: "(int \<times> u32) list \<Rightarrow> byte option" where
  "wait_for_key [] = None"
| "wait_for_key ((r, now) # polls) =
     (let ch = (word_of_int r :: byte)
      in if ch \<noteq> CONFIGURATION_KEY
         then (if now \<ge> CONFIG_CONSOLE_ENTRY_DELAY_MS then Some ch else wait_for_key polls)
         else Some ch)"

text \<open>The first lines of \<^verbatim>\<open>setup()\<close>: the console is open and the LED pin is high.\<close>

definition console_opened :: "system \<Rightarrow> system" where
  "console_opened s =
     s\<lparr>Serial := (HardwareSerial_begin CONFIG_CONSOLE_BAUD_SERIAL (Serial s))
                    \<lparr>rx_size := RXBUFFERSIZE\<rparr>,
       LED_BUILTIN := True\<rparr>"

text \<open>\<^verbatim>\<open>setup()\<close>, named \<open>setup_boot\<close> here.\<close>

definition setup_boot :: "nat \<Rightarrow> (nat \<Rightarrow> byte) \<Rightarrow> (int \<times> u32) list \<Rightarrow> system \<Rightarrow> system outcome" where
  "setup_boot pad junk polls s =
     (case load_config pad junk (console_opened s) of
        Done s2 \<Rightarrow>
          (case wait_for_key polls of
             None \<Rightarrow> Waiting
           | Some ch \<Rightarrow>
               if ch = CONFIGURATION_KEY then Done (setupConfigurationConsole s2)
               else setupSerialPipe s2)
      | Halted \<Rightarrow> Halted
      | Fault \<Rightarrow> Fault
      | Waiting \<Rightarrow> Waiting)"

subsection \<open>BridgeEngine: one tick\<close>

text \<open>The heartbeat of the status LED; \<^verbatim>\<open>HIGH\<close> is \<open>True\<close>.\<close>

definition heartbeat :: "system \<Rightarrow> system" where
  "heartbeat s =
     (if status_led_change_ms s \<le> millis s then
        (let s' = (if status_led_state s
                   then s\<lparr>status_led_state := False,
                          status_led_change_ms := STATUS_LED_ON_MS + millis s\<rparr>
                   else s\<lparr>status_led_state := True,
                          status_led_change_ms := STATUS_LED_OFF_MS + millis s\<rparr>)
         in s'\<lparr>LED_BUILTIN := status_led_state s'\<rparr>)
      else s)"

text \<open>\<^verbatim>\<open>logger->read()\<close>: the next console byte as an \<^verbatim>\<open>int\<close>, or \<open>-1\<close>.\<close>

definition SoftwareSerial_read :: "SoftwareSerial \<Rightarrow> int \<times> SoftwareSerial" where
  "SoftwareSerial_read l =
     (case sw_rx l of
        [] \<Rightarrow> (- 1, l)
      | b # bs \<Rightarrow> (uint b, l\<lparr>sw_rx := bs\<rparr>))"

definition switch_to_configuration :: "system \<Rightarrow> system" where
  "switch_to_configuration s =
     (let s1 = logger_print LogSwitching s
      in s1\<lparr>Serial := HardwareSerial_begin CONFIG_CONSOLE_BAUD_SERIAL
                         (HardwareSerial_swap (Serial s1)),
            configuration_mode := True\<rparr>)"

text \<open>
  The slot array \<^verbatim>\<open>serverClients[MAX_SRV_CLIENTS]\<close> is a list with one element per
  slot, and a loop over \<^verbatim>\<open>i < MAX_SRV_CLIENTS\<close> is a recursion over that list.
  \<open>free_slot\<close> is the search loop: the value of \<open>i\<close> when it ends, which is the
  number of slots when no slot is free.
\<close>

fun free_slot :: "WiFiClient list \<Rightarrow> nat \<Rightarrow> nat" where
  "free_slot [] i = i"
| "free_slot (c # cs) i = (if \<not> connected c then i else free_slot cs (Suc i))"

definition no_client :: WiFiClient where
  "no_client = \<lparr>remote = 0, connected = False, inbox = [], outbox = [],
                afw_scan = 0, afw_push = 0\<rparr>"

definition WiFiServer_available :: "WiFiServer \<Rightarrow> WiFiClient \<times> WiFiServer" where
  "WiFiServer_available srv =
     (case backlog srv of
        [] \<Rightarrow> (no_client, srv)
      | c # cs \<Rightarrow> (c, srv\<lparr>backlog := cs\<rparr>))"

text \<open>
  \<^verbatim>\<open>println("busy")\<close> on the temporary, which then goes out of scope: its text is
  flushed and the connection stopped.
\<close>

definition turn_away :: "WiFiClient \<Rightarrow> WiFiClient" where
  "turn_away c = c\<lparr>outbox := outbox c @ c_bytes ''busy'' @ [0x0D, 0x0A], connected := False\<rparr>"

definition accept_client :: "system \<Rightarrow> system" where
  "accept_client s =
     (if backlog (server s) \<noteq> [] then
        (let i = free_slot (serverClients s) 0;
             (c, srv) = WiFiServer_available (server s)
         in if i < length (serverClients s)
            then logger_print (LogNewClient i)
                   (s\<lparr>serverClients := (serverClients s)[i := c], server := srv\<rparr>)
            else logger_print (LogServerBusy MAX_SRV_CLIENTS)
                   (s\<lparr>server := srv\<lparr>dropped := dropped srv @ [turn_away c]\<rparr>\<rparr>))
      else s)"

text \<open>
  Client to UART, byte by byte while the client has data and the UART has room: the
  bytes of one client that stay unread, and the UART afterwards.
\<close>

fun drain_bytes :: "byte list \<Rightarrow> HardwareSerial \<Rightarrow> byte list \<times> HardwareSerial" where
  "drain_bytes [] ser = ([], ser)"
| "drain_bytes (b # bs) ser =
     (if tx_free ser > 0
      then drain_bytes bs (ser\<lparr>tx_out := tx_out ser @ [b], tx_free := tx_free ser - 1\<rparr>)
      else (b # bs, ser))"

fun drain_clients :: "WiFiClient list \<Rightarrow> HardwareSerial \<Rightarrow> WiFiClient list \<times> HardwareSerial" where
  "drain_clients [] ser = ([], ser)"
| "drain_clients (c # cs) ser =
     (let (unread, ser') = drain_bytes (inbox c) ser;
          (cs', ser'') = drain_clients cs ser'
      in (c\<lparr>inbox := unread\<rparr> # cs', ser''))"

definition clients_to_serial :: "system \<Rightarrow> system" where
  "clients_to_serial s =
     (let (cs, ser) = drain_clients (serverClients s) (Serial s)
      in s\<lparr>serverClients := cs, Serial := ser\<rparr>)"

text \<open>\<^verbatim>\<open>client.availableForWrite()\<close> returns 0 when the client is not connected.\<close>

definition availableForWrite :: "(WiFiClient \<Rightarrow> nat) \<Rightarrow> WiFiClient \<Rightarrow> nat" where
  "availableForWrite answer c = (if connected c then answer c else 0)"

text \<open>
  The "fair TCP use" loop: \<open>maxToTcp\<close> and the logger output so far go in, their final
  values come out.
\<close>

fun fair_scan :: "WiFiClient list \<Rightarrow> nat \<times> log_msg list \<Rightarrow> nat \<times> log_msg list" where
  "fair_scan [] acc = acc"
| "fair_scan (c # cs) (maxToTcp, out) =
     (if connected c then
        (let afw = availableForWrite afw_scan c
         in if afw \<noteq> 0 then
              (if maxToTcp = 0 then fair_scan cs (afw, out)
               else fair_scan cs (min maxToTcp afw, out))
            else fair_scan cs (maxToTcp, out @ [LogCongested]))
      else fair_scan cs (maxToTcp, out))"

text \<open>\<^verbatim>\<open>client.write(sbuf, n)\<close>: the bytes go out, the count comes back.\<close>

definition WiFiClient_write :: "byte list \<Rightarrow> WiFiClient \<Rightarrow> nat \<times> WiFiClient" where
  "WiFiClient_write sbuf c = (length sbuf, c\<lparr>outbox := outbox c @ sbuf\<rparr>)"

text \<open>The push loop over the slots, for the chunk \<open>sbuf\<close> read for a request of \<open>len\<close>.\<close>

fun push_clients ::
  "byte list \<Rightarrow> nat \<Rightarrow> WiFiClient list \<Rightarrow> log_msg list \<Rightarrow> WiFiClient list \<times> log_msg list" where
  "push_clients sbuf len [] out = ([], out)"
| "push_clients sbuf len (c # cs) out =
     (if availableForWrite afw_push c \<ge> length sbuf then
        (let (tcp_sent, c') = WiFiClient_write sbuf c;
             out' = (if tcp_sent \<noteq> len
                     then out @ [LogLenMismatch len (length sbuf) tcp_sent] else out);
             (cs', out'') = push_clients sbuf len cs out'
         in (c' # cs', out''))
      else (let (cs', out') = push_clients sbuf len cs out in (c # cs', out')))"

text \<open>\<^verbatim>\<open>Serial.readBytes(sbuf, len)\<close>: up to \<open>len\<close> of the received bytes.\<close>

definition HardwareSerial_readBytes :: "nat \<Rightarrow> HardwareSerial \<Rightarrow> byte list \<times> HardwareSerial" where
  "HardwareSerial_readBytes len ser = (take len (rx_buf ser), ser\<lparr>rx_buf := drop len (rx_buf ser)\<rparr>)"

definition serial_to_clients :: "system \<Rightarrow> system" where
  "serial_to_clients s =
     (let (maxToTcp, out) = fair_scan (serverClients s) (0, sw_out (logger s));
          s1 = s\<lparr>logger := (logger s)\<lparr>sw_out := out\<rparr>\<rparr>;
          len = min (min (length (rx_buf (Serial s1))) maxToTcp) STACK_PROTECTOR
      in if len \<noteq> 0 then
           (let (sbuf, ser) = HardwareSerial_readBytes len (Serial s1);
                (cs, out') = push_clients sbuf len (serverClients s1) (sw_out (logger s1))
            in s1\<lparr>Serial := ser, serverClients := cs,
                  logger := (logger s1)\<lparr>sw_out := out'\<rparr>\<rparr>)
         else s1)"

text \<open>The console check at the top of the tick: what \<^verbatim>\<open>logger->read()\<close> returned.\<close>

definition poll_console :: "system \<Rightarrow> int \<times> system" where
  "poll_console s = (let (ch, lg) = SoftwareSerial_read (logger s) in (ch, s\<lparr>logger := lg\<rparr>))"

definition serialPipe :: "system \<Rightarrow> system" where
  "serialPipe s =
     (let s1 = heartbeat s;
          (ch, s2) = poll_console s1
      in if ch = uint CONFIGURATION_KEY then switch_to_configuration s2
         else serial_to_clients (clients_to_serial (accept_client s2)))"

text \<open>
  Names for the points of a tick: whether its console read returns the key, the state
  after the console read, and the state when the tick reaches the fairness scan.
\<close>

definition reads_key :: "system \<Rightarrow> bool" where
  "reads_key s \<longleftrightarrow> fst (poll_console (heartbeat s)) = uint CONFIGURATION_KEY"

definition after_console :: "system \<Rightarrow> system" where
  "after_console s = snd (poll_console (heartbeat s))"

definition at_scan :: "system \<Rightarrow> system" where
  "at_scan s = clients_to_serial (accept_client (after_console s))"

text \<open>
  The fairness bound in the words of the specification: the minimum of the budgets of
  the connected clients whose budget is not zero, and 0 when there is none.
\<close>

definition writable_budgets :: "WiFiClient list \<Rightarrow> nat list" where
  "writable_budgets cs = map afw_scan (filter (\<lambda>c. connected c \<and> afw_scan c \<noteq> 0) cs)"

definition fair_bound :: "WiFiClient list \<Rightarrow> nat" where
  "fair_bound cs = (if writable_budgets cs = [] then 0 else Min (set (writable_budgets cs)))"

definition congested :: "WiFiClient list \<Rightarrow> WiFiClient list" where
  "congested cs = filter (\<lambda>c. connected c \<and> afw_scan c = 0) cs"

text \<open>
  The chunk of a tick and who gets it, in the words of the specification: the length is
  the least of the bytes available, the bound and the stack limit, and a client gets the
  chunk when it is connected and its budget at write time is at least the chunk's length.
\<close>

definition chunk_length :: "system \<Rightarrow> nat" where
  "chunk_length t =
     min (min (length (rx_buf (Serial t))) (fair_bound (serverClients t))) STACK_PROTECTOR"

definition deliver :: "byte list \<Rightarrow> WiFiClient \<Rightarrow> WiFiClient" where
  "deliver chunk c =
     (if chunk \<noteq> [] \<and> connected c \<and> length chunk \<le> afw_push c
      then c\<lparr>outbox := outbox c @ chunk\<rparr> else c)"

subsection \<open>Concrete devices\<close>

text \<open>
  A device at power-on: the globals at their initialisers, both slots free, nothing
  buffered, an empty filesystem that mounts.
\<close>

definition power_on :: system where
  "power_on =
     \<lparr>status_led_state = True,
      status_led_change_ms = 0,
      serverClients = replicate MAX_SRV_CLIENTS no_client,
      configuration_mode = False,
      serialpipe_config = config_of_bytes (replicate sizeof_serialpipe_config_t 0),
      Serial = \<lparr>baud = 0, rx_size = 256, swapped = False, rx_buf = [], tx_free = 128,
                tx_out = []\<rparr>,
      logger = \<lparr>sw_baud = 0, sw_rx = [], sw_out = []\<rparr>,
      server = \<lparr>port = ucast DEFAULT_LISTEN_PORT, no_delay = False, backlog = [], dropped = []\<rparr>,
      WiFi = \<lparr>output_power = 0x41A40000, sta_mode = False, sta_ssid = [], sta_psk = [],
              status_answers = []\<rparr>,
      LittleFS = \<lparr>mount_answers = [], conf_file = None, write_room = 4096, read_room = 4096\<rparr>,
      LED_BUILTIN = False,
      millis = 0\<rparr>"

text \<open>\<^verbatim>\<open>ESP.restart()\<close>: the globals start over, the filesystem stays.\<close>

definition restart :: "system \<Rightarrow> system" where
  "restart s = power_on\<lparr>LittleFS := LittleFS s\<rparr>"

text \<open>Byte \<open>k\<close> of the stored file overwritten with \<open>v\<close>.\<close>

definition corrupt_record :: "nat \<Rightarrow> byte \<Rightarrow> system \<Rightarrow> system" where
  "corrupt_record k v s =
     s\<lparr>LittleFS := (LittleFS s)\<lparr>conf_file := map_option (\<lambda>bs. bs[k := v])
                                                (conf_file (LittleFS s))\<rparr>\<rparr>"

text \<open>Sequencing of steps that may not return.\<close>

definition and_then :: "'a outcome \<Rightarrow> ('a \<Rightarrow> 'b outcome) \<Rightarrow> 'b outcome" where
  "and_then r f = (case r of Done x \<Rightarrow> f x | Halted \<Rightarrow> Halted | Fault \<Rightarrow> Fault | Waiting \<Rightarrow> Waiting)"

text \<open>
  The operator's configuration of the end-to-end scenario: ssid \<^verbatim>\<open>lab1\<close>, psk
  \<^verbatim>\<open>secret123\<close>, 15.0 dBm (\<^verbatim>\<open>0x41700000\<close>), port 2323, DUT at 9600 baud.
\<close>

definition lab1_config :: serialpipe_config_t where
  "lab1_config =
     \<lparr>wifi = \<lparr>ssid = c_bytes ''lab1'' @ replicate 28 0,
              psk = c_bytes ''secret123'' @ replicate 55 0,
              tx_power = 0x41700000, listen_port = 2323\<rparr>,
      uart = \<lparr>log_baud_rate = 115200, dut_baud_rate = 9600\<rparr>\<rparr>"

text \<open>
  A device whose flash holds no filesystem yet: the first mount fails, and after the
  format it mounts.
\<close>

definition first_boot :: system where
  "first_boot =
     power_on\<lparr>LittleFS := \<lparr>mount_answers = [False], conf_file = None,
                            write_room = 4096, read_room = 4096\<rparr>\<rparr>"

text \<open>A stack that happens to hold zeros.\<close>

definition zero_junk :: "nat \<Rightarrow> byte" where
  "zero_junk k = 0"

text \<open>
  A device with a one-byte configuration file whose filesystem mounts once and then
  fails to mount.
\<close>

definition flaky_mount :: system where
  "flaky_mount =
     power_on\<lparr>LittleFS := \<lparr>mount_answers = [True, False], conf_file = Some [0x01],
                            write_room = 4096, read_room = 4096\<rparr>\<rparr>"

text \<open>
  A connected client from peer \<open>r\<close> that reports \<open>n\<close> bytes of room both times, and
  one that reports \<open>n\<close> at the scan and \<open>m\<close> at the push.
\<close>

definition client_with_budget :: "nat \<Rightarrow> nat \<Rightarrow> WiFiClient" where
  "client_with_budget r n = no_client\<lparr>remote := r, connected := True, afw_scan := n, afw_push := n\<rparr>"

definition client_with_budgets :: "nat \<Rightarrow> nat \<Rightarrow> nat \<Rightarrow> WiFiClient" where
  "client_with_budgets r n m =
     no_client\<lparr>remote := r, connected := True, afw_scan := n, afw_push := m\<rparr>"

text \<open>A bridge with the given slots and the given bytes waiting on the UART.\<close>

definition bridge_with :: "WiFiClient list \<Rightarrow> byte list \<Rightarrow> system" where
  "bridge_with cs pending =
     power_on\<lparr>serverClients := cs, Serial := (Serial power_on)\<lparr>swapped := True, rx_buf := pending\<rparr>\<rparr>"


text \<open>A device with connections waiting, with console input, with scripted WiFi status.\<close>

definition with_backlog :: "WiFiClient list \<Rightarrow> system \<Rightarrow> system" where
  "with_backlog q s = s\<lparr>server := (server s)\<lparr>backlog := q\<rparr>\<rparr>"

definition with_console :: "byte list \<Rightarrow> system \<Rightarrow> system" where
  "with_console typed s = s\<lparr>logger := (logger s)\<lparr>sw_rx := typed\<rparr>\<rparr>"

definition with_wifi_answers :: "bool list \<Rightarrow> system \<Rightarrow> system" where
  "with_wifi_answers answers s = s\<lparr>WiFi := (WiFi s)\<lparr>status_answers := answers\<rparr>\<rparr>"


section \<open>Properties\<close>

subsection \<open>CRC-8 against its reference\<close>

lemma and1_bit0: "((w :: byte) AND 1 \<noteq> 0) = bit w 0"
  by (simp add: and_one_eq mod2_eq_if bit_0)

lemma CRC8_bits_funpow:
  "CRC8_bits tempI crc ex = fst ((crc8_ref_bit ^^ unat tempI) (crc, ex))"
proof (induction tempI crc ex rule: CRC8_bits.induct)
  case (1 tempI crc ex)
  show ?case
  proof (cases "tempI = 0")
    case True
    then show ?thesis by (subst CRC8_bits.simps) simp
  next
    case False
    then have u: "unat tempI = Suc (unat (tempI - 1))"
      by (simp add: unat_minus_one unat_gt_0)
    show ?thesis
      using False 1
      by (subst CRC8_bits.simps, subst u)
         (simp add: funpow_swap1 crc8_ref_bit_def Let_def and1_bit0)
  qed
qed

lemma CRC8_bits_8: "CRC8_bits 8 crc ex = crc8_ref_byte crc ex"
  by (simp add: CRC8_bits_funpow crc8_ref_byte_def)

lemma CRC8_loop_foldl:
  "unat len \<le> length data \<Longrightarrow>
   CRC8_loop data len crc = Some (foldl crc8_ref_byte crc (take (unat len) data))"
proof (induction data arbitrary: len crc)
  case Nil
  then show ?case by (subst CRC8_loop.simps) (simp add: unat_eq_0)
next
  case (Cons e rest)
  show ?case
  proof (cases "len = 0")
    case True
    then show ?thesis by (subst CRC8_loop.simps) simp
  next
    case False
    then have u: "unat len = Suc (unat (len - 1))"
      by (simp add: unat_minus_one unat_gt_0)
    with Cons.prems have "unat (len - 1) \<le> length rest" by simp
    from Cons.IH [OF this] show ?thesis
      using False by (subst CRC8_loop.simps, subst u) (simp add: CRC8_bits_8)
  qed
qed

lemma CRC8_eq_ref:
  "unat len \<le> length data \<Longrightarrow> CRC8 data len = Some (crc8_ref (take (unat len) data))"
  by (simp add: CRC8_def crc8_ref_def CRC8_loop_foldl)

text \<open>
  Claim C1. \<^verbatim>\<open>CRC8(data, len)\<close> computes the reference CRC-8 (initial value 0, eight
  LSB-first rounds per byte with \<^verbatim>\<open>0x8C\<close>) of the \<open>len\<close> bytes it is given, for
  every buffer and every length the 8-bit \<open>len\<close> argument can carry, as long as the
  buffer holds that many bytes.
\<close>

theorem CRC8_refines_reference:
  "unat len \<le> length data \<Longrightarrow> CRC8 data len = Some (crc8_ref (take (unat len) data))"
  unfolding CRC8_def crc8_ref_def by (rule CRC8_loop_foldl)

lemma crc8_ref_check: "crc8_ref (c_bytes ''123456789'') = 0xA1"
  by code_simp

theorem CRC8_refines_reference_witness:
  "unat (9 :: byte) \<le> length (c_bytes ''123456789'')
   \<and> CRC8 (c_bytes ''123456789'') 9 = Some 0xA1"
proof -
  have h: "unat (9 :: byte) \<le> length (c_bytes ''123456789'')"
    by (simp add: c_bytes_def)
  have t: "take (unat (9 :: byte)) (c_bytes ''123456789'') = c_bytes ''123456789''"
    by (simp add: c_bytes_def)
  show ?thesis
    using h CRC8_refines_reference [OF h] by (simp only: t crc8_ref_check simp_thms)
qed

subsection \<open>CRC-8 detects every change of one byte\<close>

lemma byte_xor_cancel_right: "((a::byte) XOR x = b XOR x) = (a = b)"
proof
  assume "a XOR x = b XOR x"
  then have "(a XOR x) XOR x = (b XOR x) XOR x" by simp
  then show "a = b" by (simp add: xor.assoc)
qed simp

lemma byte_xor_cancel_left: "((x::byte) XOR a = x XOR b) = (a = b)"
  using byte_xor_cancel_right [of a x b] by (simp add: xor.commute)

lemma drop_bit1_top: "\<not> bit (drop_bit 1 (a::byte)) 7"
  by (auto simp: bit_simps dest: bit_imp_le_length) 

lemma crc8_shift_top: "bit (crc8_shift a) 7 = bit a 0"
  by (auto simp: crc8_shift_def bit_simps dest: bit_imp_le_length)

lemma drop_bit1_inj:
  assumes "drop_bit 1 (a::byte) = drop_bit 1 b" and "bit a 0 = bit b 0"
  shows "a = b"
proof (rule bit_eqI)
  fix n
  show "bit a n = bit b n"
  proof (cases n)
    case 0
    with assms(2) show ?thesis by simp
  next
    case (Suc m)
    have "bit (drop_bit 1 a) m = bit (drop_bit 1 b) m"
      using assms(1) by simp
    then show ?thesis by (simp add: bit_drop_bit_eq Suc)
  qed
qed

lemma crc8_shift_inj: "crc8_shift a = crc8_shift b \<Longrightarrow> a = b"
proof -
  assume eq: "crc8_shift a = crc8_shift b"
  then have b0: "bit a 0 = bit b 0"
    using crc8_shift_top [of a] crc8_shift_top [of b] by simp
  with eq have "drop_bit 1 a = drop_bit 1 b"
    by (auto simp: crc8_shift_def byte_xor_cancel_right split: if_splits)
  with b0 show "a = b" by (rule drop_bit1_inj [rotated])
qed

lemma crc8_shift_funpow_inj: "(crc8_shift ^^ n) a = (crc8_shift ^^ n) b \<Longrightarrow> a = b"
  by (induction n) (auto dest: crc8_shift_inj)

lemma crc8_ref_bit_shift:
  "crc8_ref_bit (c, b) = (c', b') \<Longrightarrow> c' XOR b' = crc8_shift (c XOR b) \<and> b' = drop_bit 1 b"
  by (auto simp: crc8_ref_bit_def crc8_shift_def drop_bit_xor ac_simps)

lemma crc8_ref_bit_funpow:
  "(crc8_ref_bit ^^ n) (c, b) = (c', b') \<Longrightarrow>
   c' XOR b' = (crc8_shift ^^ n) (c XOR b) \<and> b' = drop_bit n b"
proof (induction n arbitrary: c' b')
  case 0
  then show ?case by simp
next
  case (Suc n)
  obtain c1 b1 where mid: "(crc8_ref_bit ^^ n) (c, b) = (c1, b1)"
    by (cases "(crc8_ref_bit ^^ n) (c, b)")
  with Suc.prems have "crc8_ref_bit (c1, b1) = (c', b')" by simp
  from crc8_ref_bit_shift [OF this] Suc.IH [OF mid] show ?case
    by auto
qed

lemma crc8_ref_byte_shift: "crc8_ref_byte c b = (crc8_shift ^^ 8) (c XOR b)"
proof -
  obtain c' b' where r: "(crc8_ref_bit ^^ 8) (c, b) = (c', b')"
    by (cases "(crc8_ref_bit ^^ 8) (c, b)")
  from crc8_ref_bit_funpow [OF this]
  have x: "c' XOR b' = (crc8_shift ^^ 8) (c XOR b)" and d: "b' = drop_bit 8 b"
    by blast+
  have "drop_bit 8 b = 0"
    by (rule bit_eqI) (auto simp: bit_simps dest: bit_imp_le_length)
  with d have "b' = 0" by simp
  with x have "c' = (crc8_shift ^^ 8) (c XOR b)" by (simp del: funpow.simps)
  then show ?thesis by (simp add: crc8_ref_byte_def r)
qed

lemma crc8_ref_byte_inj:
  "crc8_ref_byte c b = crc8_ref_byte c' b' \<Longrightarrow> c XOR b = c' XOR b'"
  by (simp add: crc8_ref_byte_shift del: funpow.simps) (rule crc8_shift_funpow_inj)

lemma crc8_foldl_inj:
  "foldl crc8_ref_byte c bs = foldl crc8_ref_byte c' bs \<Longrightarrow> c = c'"
proof (induction bs arbitrary: c c')
  case Nil
  then show ?case by simp
next
  case (Cons b bs)
  then have "crc8_ref_byte c b = crc8_ref_byte c' b" by simp
  then show ?case by (auto dest: crc8_ref_byte_inj simp: byte_xor_cancel_right)
qed

lemma crc8_foldl_update:
  "i < length bs \<Longrightarrow> v \<noteq> bs ! i \<Longrightarrow>
   foldl crc8_ref_byte c (bs[i := v]) \<noteq> foldl crc8_ref_byte c bs"
proof (induction bs arbitrary: i c)
  case Nil
  then show ?case by simp
next
  case (Cons b bs)
  show ?case
  proof (cases i)
    case 0
    show ?thesis
    proof
      assume "foldl crc8_ref_byte c ((b # bs)[i := v]) = foldl crc8_ref_byte c (b # bs)"
      with 0 have "crc8_ref_byte c v = crc8_ref_byte c b"
        by (auto dest: crc8_foldl_inj)
      then have "v = b" by (auto dest: crc8_ref_byte_inj simp: byte_xor_cancel_left)
      with Cons.prems 0 show False by simp
    qed
  next
    case (Suc k)
    with Cons.prems Cons.IH [of k "crc8_ref_byte c b"] show ?thesis by simp
  qed
qed

lemma push_bit_1_nonzero: "j < 8 \<Longrightarrow> push_bit j (1 :: byte) \<noteq> 0"
proof
  assume "j < 8" and z: "push_bit j (1 :: byte) = 0"
  then have "bit (push_bit j (1 :: byte)) j" by (auto simp add: bit_simps)
  with z show False by (simp del: push_bit_of_1)
qed

lemma flip_bit_at_differs:
  "j < 8 \<Longrightarrow> (bs ! i) XOR push_bit j 1 \<noteq> (bs ! i :: byte)"
proof
  assume j: "j < 8" and "(bs ! i) XOR push_bit j 1 = bs ! i"
  then have "(bs ! i) XOR push_bit j 1 = (bs ! i) XOR 0" by (simp del: push_bit_of_1)
  then have "push_bit j (1 :: byte) = 0" by (simp only: byte_xor_cancel_left)
  with push_bit_1_nonzero [OF j] show False by simp
qed

lemma CRC8_update_differs:
  assumes "unat len \<le> length data" and "i < unat len" and "v \<noteq> data ! i"
  shows "CRC8 (data[i := v]) len \<noteq> CRC8 data len"
proof -
  have "CRC8 (data[i := v]) len = Some (crc8_ref ((take (unat len) data)[i := v]))"
    using assms(1) by (simp add: CRC8_eq_ref take_update_swap)
  moreover have "CRC8 data len = Some (crc8_ref (take (unat len) data))"
    using assms(1) by (rule CRC8_eq_ref)
  moreover have "crc8_ref ((take (unat len) data)[i := v]) \<noteq> crc8_ref (take (unat len) data)"
    unfolding crc8_ref_def using assms by (intro crc8_foldl_update) simp_all
  ultimately show ?thesis by simp
qed

text \<open>
  Claim C9. The checksum is a function of its input (equal inputs give equal outputs),
  and flipping any single bit (bit \<open>j\<close> of byte \<open>i\<close>) among the \<open>len\<close> bytes that
  \<^verbatim>\<open>CRC8\<close> is given changes the checksum.
\<close>

theorem CRC8_deterministic_and_detects_bit_flip:
  "(data' = data \<and> len' = len \<longrightarrow> CRC8 data' len' = CRC8 data len)
   \<and> (unat len \<le> length data \<and> i < unat len \<and> j < 8
        \<longrightarrow> CRC8 (flip_bit_at i j data) len \<noteq> CRC8 data len)"
proof (intro conjI impI)
  assume "data' = data \<and> len' = len"
  then show "CRC8 data' len' = CRC8 data len" by simp
next
  assume h: "unat len \<le> length data \<and> i < unat len \<and> j < 8"
  then have "(data ! i) XOR push_bit j 1 \<noteq> data ! i"
    by (simp add: flip_bit_at_differs del: push_bit_of_1)
  with h show "CRC8 (flip_bit_at i j data) len \<noteq> CRC8 data len"
    unfolding flip_bit_at_def by (intro CRC8_update_differs) simp_all
qed

theorem CRC8_deterministic_and_detects_bit_flip_witness:
  "CRC8 (flip_bit_at 3 5 (c_bytes ''123456789'')) 9 \<noteq> CRC8 (c_bytes ''123456789'') 9
   \<and> CRC8 (c_bytes ''123456789'') 9 = CRC8 (c_bytes ''123456789'') 9"
  using CRC8_deterministic_and_detects_bit_flip
          [of "c_bytes ''123456789''" "c_bytes ''123456789''" 9 9 3 5]
  by (simp add: c_bytes_def)

subsection \<open>ConfigStore\<close>

lemma le32_roundtrip: "le32_of (le32 w) = w"
proof (rule bit_word_eqI)
  fix n
  assume n: "n < LENGTH(32)"
  have c: "n - 16 < 8 \<or> 24 + (n - 24) = n" by arith
  show "bit (le32_of (le32 w)) n = bit w n"
    unfolding le32_of_def le32_def using n c by (auto simp: bit_simps)
qed

lemma length_le32: "length (le32 w) = 4"
  by (simp add: le32_def)

lemma length_config_bytes:
  "valid_config cfg \<Longrightarrow> length (config_bytes cfg) = sizeof_serialpipe_config_t"
  by (simp add: valid_config_def config_bytes_def length_le32 sizeof_serialpipe_config_t_def)

lemma config_of_bytes_config_bytes:
  "valid_config cfg \<Longrightarrow> config_of_bytes (config_bytes cfg) = cfg"
  by (simp add: valid_config_def config_bytes_def config_of_bytes_def length_le32 le32_roundtrip)

lemma unat_sizeof_config: "unat (of_nat sizeof_serialpipe_config_t :: byte) = 112"
  by (simp add: sizeof_serialpipe_config_t_def)

lemma CRC8_112:
  "112 \<le> length bs \<Longrightarrow>
   CRC8 bs (of_nat sizeof_serialpipe_config_t) = Some (crc8_ref (take 112 bs))"
  using CRC8_eq_ref [of "of_nat sizeof_serialpipe_config_t" bs]
  by (simp add: unat_sizeof_config)

lemma healthy_begin:
  assumes "healthy_storage pad fs"
  shows "fst (LittleFS_begin fs)"
    and "healthy_storage pad (snd (LittleFS_begin fs))"
    and "conf_file (snd (LittleFS_begin fs)) = conf_file fs"
  using assms
  by (cases "mount_answers fs"; simp add: healthy_storage_def LittleFS_begin_def)+

lemma healthy_stored: "healthy_storage pad fs \<Longrightarrow> healthy_storage pad (stored bs fs)"
  using healthy_begin(2) [of pad fs] by (simp add: stored_def healthy_storage_def)

lemma conf_file_stored: "conf_file (stored bs fs) = Some bs"
  by (simp add: stored_def)

lemma save_config_healthy:
  assumes v: "valid_config (serialpipe_config s)" and h: "healthy_storage pad (LittleFS s)"
  shows "save_config pad junk s =
           Done (s\<lparr>LittleFS := stored (config_bytes (serialpipe_config s)
                                        @ [crc8_ref (config_bytes (serialpipe_config s))]
                                        @ map junk [113 ..< 113 + pad]) (LittleFS s)\<rparr>)"
proof -
  note b = healthy_begin [OF h]
  have len: "length (config_bytes (serialpipe_config s)) = 112"
    using length_config_bytes [OF v] by (simp add: sizeof_serialpipe_config_t_def)
  have crc: "CRC8 (config_bytes (serialpipe_config s)) 112
             = Some (crc8_ref (config_bytes (serialpipe_config s)))"
    using CRC8_112 [of "config_bytes (serialpipe_config s)"] len
    by (simp add: sizeof_serialpipe_config_t_def)
  have room: "113 + pad \<le> write_room (snd (LittleFS_begin (LittleFS s)))"
    using b(2) by (simp add: healthy_storage_def sizeof_serialpipe_config_file_t_def
                           sizeof_serialpipe_config_t_def)
  show ?thesis
    using room
    by (simp add: save_config_def crc b(1) len File_write_def LittleFS_open_w_def Let_def
                  sizeof_serialpipe_config_file_t_def sizeof_serialpipe_config_t_def
                  stored_def min_def case_prod_beta)
qed

lemma set_default_config_overwrites:
  "set_default_config (s\<lparr>serialpipe_config := x\<rparr>) = set_default_config s"
  by (simp add: set_default_config_def)

lemma LittleFS_set_default_config: "LittleFS (set_default_config s) = LittleFS s"
  by (simp add: set_default_config_def Let_def)

lemma zeroed_config:
  "config_of_bytes (replicate sizeof_serialpipe_config_t 0) =
     \<lparr>wifi = \<lparr>ssid = replicate 32 0, psk = replicate 64 0, tx_power = 0, listen_port = 0\<rparr>,
      uart = \<lparr>log_baud_rate = 0, dut_baud_rate = 0\<rparr>\<rparr>"
  by code_simp

lemma default_ssid_array:
  "memcpy_front (replicate 32 0) DEFAULT_SSID = c_bytes ''default'' @ replicate 25 0"
  by code_simp

lemma default_psk_array:
  "memcpy_front (replicate 64 0) DEFAULT_PSK = c_bytes ''undefined'' @ replicate 55 0"
  by code_simp

lemma default_config_value:
  "serialpipe_config (set_default_config s) =
     \<lparr>wifi = \<lparr>ssid = c_bytes ''default'' @ replicate 25 0,
              psk = c_bytes ''undefined'' @ replicate 55 0,
              tx_power = 0x41400000, listen_port = 23\<rparr>,
      uart = \<lparr>log_baud_rate = 115200, dut_baud_rate = 115200\<rparr>\<rparr>"
  by (simp add: set_default_config_def zeroed_config default_ssid_array default_psk_array
                DEFAULT_TX_POWER_def DEFAULT_LISTEN_PORT_def DEFAULT_BAUD_LOGGER_def
                DEFAULT_BAUD_DUT_def)

lemma valid_default_config: "valid_config (serialpipe_config (set_default_config s))"
  by (simp add: default_config_value valid_config_def c_bytes_def)

lemma load_config_healthy:
  assumes h: "healthy_storage pad (LittleFS s)"
  shows "load_config pad junk s = load_record pad junk (s\<lparr>LittleFS := snd (LittleFS_begin (LittleFS s))\<rparr>)"
  using healthy_begin(1) [OF h] by (simp add: load_config_def case_prod_beta)

lemma intact_recordD:
  assumes "intact_record pad (Some bs)"
  shows "length bs = 113 + pad" and "crc8_ref (take 112 bs) = bs ! 112"
proof -
  from assms show len: "length bs = 113 + pad"
    by (simp add: intact_record_def sizeof_serialpipe_config_file_t_def
                  sizeof_serialpipe_config_t_def)
  then have "112 \<le> length (file_config bs)"
    by (simp add: file_config_def sizeof_serialpipe_config_t_def)
  from CRC8_112 [OF this] assms show "crc8_ref (take 112 bs) = bs ! 112"
    by (simp add: intact_record_def file_config_def file_crc_def sizeof_serialpipe_config_t_def)
qed

lemma CRC8_file_config:
  assumes "length bs = sizeof_serialpipe_config_file_t pad"
  shows "CRC8 (file_config bs) (of_nat sizeof_serialpipe_config_t)
         = Some (crc8_ref (file_config bs))"
proof -
  have "112 \<le> length (file_config bs)"
    using assms by (simp add: file_config_def sizeof_serialpipe_config_t_def
                              sizeof_serialpipe_config_file_t_def)
  from CRC8_112 [OF this] show ?thesis
    by (simp add: file_config_def sizeof_serialpipe_config_t_def)
qed

lemma sizeof_file_nonzero: "sizeof_serialpipe_config_file_t pad \<noteq> 0"
  by (simp add: sizeof_serialpipe_config_file_t_def)

lemma readBytes_whole:
  assumes "sizeof_serialpipe_config_file_t pad \<le> read_room fs"
    and "conf_file fs = Some bs" and "length bs = sizeof_serialpipe_config_file_t pad"
  shows "File_readBytes (sizeof_serialpipe_config_file_t pad) fs = bs"
  using assms by (simp add: File_readBytes_def)

lemma load_record_intact:
  assumes h: "sizeof_serialpipe_config_file_t pad \<le> read_room (LittleFS s)"
    and f: "conf_file (LittleFS s) = Some bs" and i: "intact_record pad (Some bs)"
  shows "load_record pad junk s = Done (s\<lparr>serialpipe_config := config_of_bytes (file_config bs)\<rparr>)"
proof -
  from i have len: "length bs = sizeof_serialpipe_config_file_t pad"
    and crc: "CRC8 (file_config bs) (of_nat sizeof_serialpipe_config_t) = Some (file_crc bs)"
    by (simp_all add: intact_record_def)
  note got = readBytes_whole [OF h f len]
  show ?thesis
    by (simp add: load_record_def File_size_def f got crc Let_def len)
qed

lemma load_record_rejected:
  assumes h: "sizeof_serialpipe_config_file_t pad \<le> read_room (LittleFS s)"
    and n: "\<not> intact_record pad (conf_file (LittleFS s))"
  shows "load_record pad junk s = save_config pad junk (set_default_config s)"
proof (cases "File_size (LittleFS s) = sizeof_serialpipe_config_file_t pad")
  case False
  then show ?thesis by (simp add: load_record_def Let_def)
next
  case True
  then obtain bs where f: "conf_file (LittleFS s) = Some bs"
    and len: "length bs = sizeof_serialpipe_config_file_t pad"
    by (cases "conf_file (LittleFS s)")
       (auto simp: File_size_def sizeof_serialpipe_config_file_t_def)
  note got = readBytes_whole [OF h f len]
  note crc = CRC8_file_config [OF len]
  with n f len have bad: "file_crc bs \<noteq> crc8_ref (file_config bs)"
    by (auto simp: intact_record_def)
  show ?thesis
    using bad
    by (simp add: load_record_def File_size_def f got crc Let_def len
                  set_default_config_overwrites sizeof_file_nonzero)
qed

lemma corrupted_not_intact:
  assumes i: "intact_record pad (Some bs)" and k: "k < 113" and v: "v \<noteq> bs ! k"
  shows "\<not> intact_record pad (Some (bs[k := v]))"
proof
  assume c: "intact_record pad (Some (bs[k := v]))"
  note d = intact_recordD [OF i] and d' = intact_recordD [OF c]
  show False
  proof (cases "k = 112")
    case True
    with d d' v show False by simp
  next
    case False
    with k have k': "k < 112" by simp
    have "foldl crc8_ref_byte 0 ((take 112 bs)[k := v]) \<noteq> foldl crc8_ref_byte 0 (take 112 bs)"
      using k' d(1) v by (intro crc8_foldl_update) simp_all
    with d d' False show False by (simp add: crc8_ref_def take_update_swap)
  qed
qed

lemma valid_lab1: "valid_config lab1_config"
  by (simp add: valid_config_def lab1_config_def c_bytes_def)

lemma healthy_power_on: "healthy_storage 3 (LittleFS power_on)"
  by (simp add: healthy_storage_def power_on_def sizeof_serialpipe_config_file_t_def
                sizeof_serialpipe_config_t_def)

text \<open>
  Claim C2. On healthy storage, \<^verbatim>\<open>save_config\<close> of a valid configuration writes a record
  of the expected size that holds the configuration bytes and their CRC-8; any later
  \<^verbatim>\<open>load_config\<close> on that filesystem, whatever the memory holds by then, accepts the
  record and leaves exactly that configuration in memory, with the file unchanged.
\<close>

theorem save_then_load_roundtrip:
  assumes v: "valid_config cfg" and h: "healthy_storage pad (LittleFS s)"
  shows "\<exists>s1 rec.
           save_config pad junk (s\<lparr>serialpipe_config := cfg\<rparr>) = Done s1
         \<and> conf_file (LittleFS s1) = Some rec
         \<and> length rec = sizeof_serialpipe_config_file_t pad
         \<and> file_config rec = config_bytes cfg
         \<and> CRC8 (file_config rec) (of_nat sizeof_serialpipe_config_t) = Some (file_crc rec)
         \<and> (\<forall>s'. LittleFS s' = LittleFS s1 \<longrightarrow>
              (\<exists>s2. load_config pad junk' s' = Done s2 \<and> serialpipe_config s2 = cfg
                    \<and> conf_file (LittleFS s2) = Some rec))"
proof -
  define rec where "rec = config_bytes cfg @ [crc8_ref (config_bytes cfg)] @ map junk [113 ..< 113 + pad]"
  define s1 where "s1 = s\<lparr>serialpipe_config := cfg, LittleFS := stored rec (LittleFS s)\<rparr>"
  have len_cfg: "length (config_bytes cfg) = 112"
    using length_config_bytes [OF v] by (simp add: sizeof_serialpipe_config_t_def)
  have saved: "save_config pad junk (s\<lparr>serialpipe_config := cfg\<rparr>) = Done s1"
    using save_config_healthy [of "s\<lparr>serialpipe_config := cfg\<rparr>" pad junk] v h
    by (simp add: s1_def rec_def)
  have stored_rec: "conf_file (LittleFS s1) = Some rec"
    by (simp add: s1_def conf_file_stored)
  have len: "length rec = sizeof_serialpipe_config_file_t pad"
    by (simp add: rec_def len_cfg sizeof_serialpipe_config_file_t_def
                  sizeof_serialpipe_config_t_def)
  have cfg: "file_config rec = config_bytes cfg"
    by (simp add: rec_def file_config_def sizeof_serialpipe_config_t_def len_cfg)
  have crcb: "file_crc rec = crc8_ref (config_bytes cfg)"
    by (simp add: rec_def file_crc_def sizeof_serialpipe_config_t_def len_cfg nth_append)
  have crc: "CRC8 (file_config rec) (of_nat sizeof_serialpipe_config_t) = Some (file_crc rec)"
    using CRC8_file_config [OF len] by (simp add: cfg crcb)
  have intact: "intact_record pad (Some rec)"
    by (simp add: intact_record_def len crc)
  have h1: "healthy_storage pad (LittleFS s1)"
    using healthy_stored [OF h] by (simp add: s1_def)
  have load: "\<exists>s2. load_config pad junk' s' = Done s2 \<and> serialpipe_config s2 = cfg
                   \<and> conf_file (LittleFS s2) = Some rec"
    if eq: "LittleFS s' = LittleFS s1" for s'
  proof -
    from h1 eq have h': "healthy_storage pad (LittleFS s')" by simp
    let ?s = "s'\<lparr>LittleFS := snd (LittleFS_begin (LittleFS s'))\<rparr>"
    have f: "conf_file (LittleFS ?s) = Some rec"
      using healthy_begin(3) [OF h'] by (simp add: eq stored_rec)
    have room: "sizeof_serialpipe_config_file_t pad \<le> read_room (LittleFS ?s)"
      using healthy_begin(2) [OF h'] by (simp add: healthy_storage_def)
    show ?thesis
      using load_record_intact [OF room f intact, of junk'] f
      by (simp add: load_config_healthy [OF h'] cfg config_of_bytes_config_bytes [OF v])
  qed
  from saved stored_rec len cfg crc load show ?thesis by blast
qed

lemma load_config_rejected:
  assumes h: "healthy_storage pad (LittleFS s)"
    and n: "\<not> intact_record pad (conf_file (LittleFS s))"
  shows "load_config pad junk s =
           Done ((set_default_config s)
                   \<lparr>LittleFS := stored (config_bytes (serialpipe_config (set_default_config s))
                                  @ [crc8_ref (config_bytes (serialpipe_config (set_default_config s)))]
                                  @ map junk [113 ..< 113 + pad])
                                 (snd (LittleFS_begin (LittleFS s)))\<rparr>)"
proof -
  let ?s = "s\<lparr>LittleFS := snd (LittleFS_begin (LittleFS s))\<rparr>"
  note b = healthy_begin [OF h]
  have room: "sizeof_serialpipe_config_file_t pad \<le> read_room (LittleFS ?s)"
    using b(2) by (simp add: healthy_storage_def)
  have n': "\<not> intact_record pad (conf_file (LittleFS ?s))"
    using n b(3) by simp
  have h': "healthy_storage pad (LittleFS (set_default_config ?s))"
    using b(2) by (simp add: LittleFS_set_default_config)
  have "load_config pad junk s = save_config pad junk (set_default_config ?s)"
    using load_record_rejected [OF room n', of junk] by (simp add: load_config_healthy [OF h])
  also have "\<dots> = Done ((set_default_config ?s)
                   \<lparr>LittleFS := stored (config_bytes (serialpipe_config (set_default_config ?s))
                                  @ [crc8_ref (config_bytes (serialpipe_config (set_default_config ?s)))]
                                  @ map junk [113 ..< 113 + pad])
                                 (LittleFS (set_default_config ?s))\<rparr>)"
    by (rule save_config_healthy [OF valid_default_config h'])
  finally show ?thesis
    by (simp add: set_default_config_def Let_def)
qed

lemma intact_recordI:
  assumes "length bs = 113 + pad" and "crc8_ref (take 112 bs) = bs ! 112"
  shows "intact_record pad (Some bs)"
proof -
  have len: "length bs = sizeof_serialpipe_config_file_t pad"
    using assms(1) by (simp add: sizeof_serialpipe_config_file_t_def sizeof_serialpipe_config_t_def)
  from CRC8_file_config [OF len] assms(2) len show ?thesis
    by (simp add: intact_record_def file_config_def file_crc_def sizeof_serialpipe_config_t_def)
qed

text \<open>
  Claim C3, as amended. On healthy storage, when the stored file is not an intact record
  (absent, of another size, or with a \<^verbatim>\<open>crc\<close> byte that is not the CRC-8 of the
  configuration bytes), and in particular when it is an intact record with one byte
  changed among the configuration bytes and the \<^verbatim>\<open>crc\<close> byte, \<^verbatim>\<open>load_config\<close> returns
  with exactly the default configuration in memory (ssid \<^verbatim>\<open>default\<close>, psk
  \<^verbatim>\<open>undefined\<close>, 12.0 dBm, port 23, both rates 115200, every other byte zero) and with
  an intact record of those defaults in the file.
\<close>

theorem load_config_discards_bad_record:
  assumes h: "healthy_storage pad (LittleFS s)"
    and bad: "\<not> intact_record pad (conf_file (LittleFS s))
              \<or> (\<exists>rec k v. intact_record pad (Some rec) \<and> k \<le> sizeof_serialpipe_config_t
                            \<and> v \<noteq> rec ! k \<and> conf_file (LittleFS s) = Some (rec[k := v]))"
  shows "\<exists>s' rec'.
           load_config pad junk s = Done s'
         \<and> serialpipe_config s' =
             \<lparr>wifi = \<lparr>ssid = c_bytes ''default'' @ replicate 25 0,
                      psk = c_bytes ''undefined'' @ replicate 55 0,
                      tx_power = 0x41400000, listen_port = 23\<rparr>,
              uart = \<lparr>log_baud_rate = 115200, dut_baud_rate = 115200\<rparr>\<rparr>
         \<and> c_str (ssid (wifi (serialpipe_config s'))) = c_bytes ''default''
         \<and> c_str (psk (wifi (serialpipe_config s'))) = c_bytes ''undefined''
         \<and> conf_file (LittleFS s') = Some rec'
         \<and> intact_record pad (Some rec')
         \<and> file_config rec' = config_bytes (serialpipe_config s')"
proof -
  from bad have n: "\<not> intact_record pad (conf_file (LittleFS s))"
  proof
    assume "\<exists>rec k v. intact_record pad (Some rec) \<and> k \<le> sizeof_serialpipe_config_t
                      \<and> v \<noteq> rec ! k \<and> conf_file (LittleFS s) = Some (rec[k := v])"
    then obtain rec k v where "intact_record pad (Some rec)"
      and "k \<le> sizeof_serialpipe_config_t" and "v \<noteq> rec ! k"
      and "conf_file (LittleFS s) = Some (rec[k := v])"
      by blast
    then show ?thesis
      using corrupted_not_intact [of pad rec k v] by (simp add: sizeof_serialpipe_config_t_def)
  qed
  let ?d = "serialpipe_config (set_default_config s)"
  let ?rec = "config_bytes ?d @ [crc8_ref (config_bytes ?d)] @ map junk [113 ..< 113 + pad]"
  have len_cfg: "length (config_bytes ?d) = 112"
    using length_config_bytes [OF valid_default_config, of s]
    by (simp add: sizeof_serialpipe_config_t_def)
  have len: "length ?rec = 113 + pad" by (simp add: len_cfg)
  have "crc8_ref (take 112 ?rec) = ?rec ! 112" by (simp add: len_cfg nth_append)
  with len have intact: "intact_record pad (Some ?rec)" by (rule intact_recordI)
  have cfg: "file_config ?rec = config_bytes ?d"
    by (simp add: file_config_def sizeof_serialpipe_config_t_def len_cfg)
  have str: "c_str (c_bytes ''default'' @ replicate 25 0) = c_bytes ''default''"
            "c_str (c_bytes ''undefined'' @ replicate 55 0) = c_bytes ''undefined''"
    by code_simp+
  show ?thesis
    using intact cfg
    by (simp add: load_config_rejected [OF h n] conf_file_stored str
                  default_config_value [symmetric]) (simp add: default_config_value str)
qed

lemma and_then_Done: "and_then (Done x) f = f x"
  by (simp add: and_then_def)

lemma LittleFS_restart: "LittleFS (restart s) = LittleFS s"
  by (simp add: restart_def)

lemma load_config_intact:
  assumes h: "healthy_storage pad (LittleFS s)"
    and f: "conf_file (LittleFS s) = Some bs" and i: "intact_record pad (Some bs)"
  shows "load_config pad junk s =
           Done (s\<lparr>LittleFS := snd (LittleFS_begin (LittleFS s)),
                   serialpipe_config := config_of_bytes (file_config bs)\<rparr>)"
proof -
  let ?s = "s\<lparr>LittleFS := snd (LittleFS_begin (LittleFS s))\<rparr>"
  have f': "conf_file (LittleFS ?s) = Some bs"
    using healthy_begin(3) [OF h] f by simp
  have room: "sizeof_serialpipe_config_file_t pad \<le> read_room (LittleFS ?s)"
    using healthy_begin(2) [OF h] by (simp add: healthy_storage_def)
  show ?thesis
    using load_record_intact [OF room f' i, of junk] by (simp add: load_config_healthy [OF h])
qed

lemma save_config_mount_fails:
  assumes v: "valid_config (serialpipe_config s)"
    and m: "mount_answers (LittleFS s) = False # rest"
  shows "save_config pad junk s = Done (s\<lparr>LittleFS := (LittleFS s)\<lparr>mount_answers := rest\<rparr>\<rparr>)"
proof -
  have "112 \<le> length (config_bytes (serialpipe_config s))"
    using length_config_bytes [OF v] by (simp add: sizeof_serialpipe_config_t_def)
  from CRC8_112 [OF this] show ?thesis
    by (simp add: save_config_def LittleFS_begin_def m Let_def)
qed

theorem save_then_load_roundtrip_witness:
  "valid_config lab1_config \<and> healthy_storage 3 (LittleFS power_on)
   \<and> map_outcome serialpipe_config
        (and_then (save_config 3 zero_junk (power_on\<lparr>serialpipe_config := lab1_config\<rparr>))
                  (\<lambda>s1. load_config 3 zero_junk (restart s1)))
      = Done lab1_config"
proof -
  from save_then_load_roundtrip [OF valid_lab1 healthy_power_on, of zero_junk zero_junk]
  obtain s1 rec where
    saved: "save_config 3 zero_junk (power_on\<lparr>serialpipe_config := lab1_config\<rparr>) = Done s1"
    and load: "\<forall>s'. LittleFS s' = LittleFS s1 \<longrightarrow>
              (\<exists>s2. load_config 3 zero_junk s' = Done s2 \<and> serialpipe_config s2 = lab1_config
                    \<and> conf_file (LittleFS s2) = Some rec)"
    by blast
  from load LittleFS_restart [of s1] obtain s2 where
    "load_config 3 zero_junk (restart s1) = Done s2" and "serialpipe_config s2 = lab1_config"
    by blast
  with saved valid_lab1 healthy_power_on show ?thesis
    by (simp add: and_then_Done)
qed

lemma lab1_not_default: "lab1_config \<noteq> serialpipe_config (set_default_config s)"
  by (simp add: default_config_value lab1_config_def)

text \<open>
  Claim C3 as stated fails twice. With the three padding bytes of the ESP8266 layout, a
  stored record of \<open>lab1_config\<close> whose padding byte 114 is overwritten is still
  accepted: the load yields \<open>lab1_config\<close>, not the defaults. And when the mount inside
  \<^verbatim>\<open>save_config\<close> fails, the defaults are not persisted: the bad file stays as it was.
\<close>

theorem padding_corruption_not_detected:
  "map_outcome serialpipe_config
     (and_then (save_config 3 zero_junk (power_on\<lparr>serialpipe_config := lab1_config\<rparr>))
               (\<lambda>s1. load_config 3 zero_junk (corrupt_record 114 0xFF (restart s1))))
   = Done lab1_config
   \<and> lab1_config \<noteq> serialpipe_config (set_default_config power_on)
   \<and> map_outcome stored_record (load_config 3 zero_junk flaky_mount) = Done (Some [0x01])"
proof (intro conjI)
  let ?cfg = "config_bytes lab1_config"
  let ?rec = "?cfg @ [crc8_ref ?cfg] @ map zero_junk [113 ..< 113 + 3]"
  have len_cfg: "length ?cfg = 112"
    using length_config_bytes [OF valid_lab1] by (simp add: sizeof_serialpipe_config_t_def)
  have saved: "save_config 3 zero_junk (power_on\<lparr>serialpipe_config := lab1_config\<rparr>)
               = Done (power_on\<lparr>serialpipe_config := lab1_config,
                               LittleFS := stored ?rec (LittleFS power_on)\<rparr>)"
    using save_config_healthy [of "power_on\<lparr>serialpipe_config := lab1_config\<rparr>" 3 zero_junk]
          valid_lab1 healthy_power_on by simp
  define s where "s = corrupt_record 114 0xFF
              (restart (power_on\<lparr>serialpipe_config := lab1_config,
                                LittleFS := stored ?rec (LittleFS power_on)\<rparr>))"
  have h: "healthy_storage 3 (LittleFS s)"
    using healthy_stored [OF healthy_power_on, of ?rec]
    by (simp add: s_def corrupt_record_def restart_def healthy_storage_def)
  define rec' where "rec' = ?rec[114 := 0xFF]"
  have f: "conf_file (LittleFS s) = Some rec'"
    by (simp add: s_def rec'_def corrupt_record_def restart_def conf_file_stored)
  have "length rec' = 113 + 3" by (simp add: rec'_def len_cfg)
  moreover have "crc8_ref (take 112 rec') = rec' ! 112"
    by (simp add: rec'_def len_cfg list_update_append nth_append)
  ultimately have intact: "intact_record 3 (Some rec')"
    by (rule intact_recordI)
  have cfg: "file_config rec' = ?cfg"
    by (simp add: rec'_def file_config_def sizeof_serialpipe_config_t_def len_cfg
                  list_update_append)
  have "map_outcome serialpipe_config (load_config 3 zero_junk s) = Done lab1_config"
    by (simp add: load_config_intact [OF h f intact] cfg
                  config_of_bytes_config_bytes [OF valid_lab1])
  then show "map_outcome serialpipe_config
     (and_then (save_config 3 zero_junk (power_on\<lparr>serialpipe_config := lab1_config\<rparr>))
               (\<lambda>s1. load_config 3 zero_junk (corrupt_record 114 0xFF (restart s1))))
   = Done lab1_config"
    by (simp add: saved and_then_Done s_def)
next
  show "lab1_config \<noteq> serialpipe_config (set_default_config power_on)"
    by (rule lab1_not_default)
next
  define s1 where "s1 = flaky_mount\<lparr>LittleFS := (LittleFS flaky_mount)\<lparr>mount_answers := [False]\<rparr>\<rparr>"
  have l: "load_config 3 zero_junk flaky_mount = load_record 3 zero_junk s1"
    by (simp add: load_config_def LittleFS_begin_def flaky_mount_def s1_def)
  have room: "sizeof_serialpipe_config_file_t 3 \<le> read_room (LittleFS s1)"
    by (simp add: s1_def flaky_mount_def sizeof_serialpipe_config_file_t_def
                  sizeof_serialpipe_config_t_def)
  have n: "\<not> intact_record 3 (conf_file (LittleFS s1))"
    by (simp add: s1_def flaky_mount_def intact_record_def sizeof_serialpipe_config_file_t_def)
  have m: "mount_answers (LittleFS (set_default_config s1)) = False # []"
    by (simp add: LittleFS_set_default_config s1_def)
  have "load_config 3 zero_junk flaky_mount =
          Done ((set_default_config s1)
                  \<lparr>LittleFS := (LittleFS (set_default_config s1))\<lparr>mount_answers := []\<rparr>\<rparr>)"
    using load_record_rejected [OF room n, of zero_junk]
          save_config_mount_fails [OF valid_default_config m, of 3 zero_junk]
    by (simp add: l)
  then show "map_outcome stored_record (load_config 3 zero_junk flaky_mount) = Done (Some [0x01])"
    by (simp add: stored_record_def LittleFS_set_default_config s1_def flaky_mount_def)
qed

theorem load_config_discards_bad_record_witness:
  "healthy_storage 3 (LittleFS power_on)
   \<and> map_outcome serialpipe_config
        (and_then (save_config 3 zero_junk (power_on\<lparr>serialpipe_config := lab1_config\<rparr>))
                  (\<lambda>s1. load_config 3 zero_junk (corrupt_record 5 0x58 (restart s1))))
      = Done (serialpipe_config (set_default_config power_on))"
proof -
  let ?cfg = "config_bytes lab1_config"
  define rec where "rec = ?cfg @ [crc8_ref ?cfg] @ map zero_junk [113 ..< 113 + 3]"
  have len_cfg: "length ?cfg = 112"
    using length_config_bytes [OF valid_lab1] by (simp add: sizeof_serialpipe_config_t_def)
  have saved: "save_config 3 zero_junk (power_on\<lparr>serialpipe_config := lab1_config\<rparr>)
               = Done (power_on\<lparr>serialpipe_config := lab1_config,
                               LittleFS := stored rec (LittleFS power_on)\<rparr>)"
    using save_config_healthy [of "power_on\<lparr>serialpipe_config := lab1_config\<rparr>" 3 zero_junk]
          valid_lab1 healthy_power_on by (simp add: rec_def)
  define s where "s = corrupt_record 5 0x58
              (restart (power_on\<lparr>serialpipe_config := lab1_config,
                                LittleFS := stored rec (LittleFS power_on)\<rparr>))"
  have h: "healthy_storage 3 (LittleFS s)"
    using healthy_stored [OF healthy_power_on, of rec]
    by (simp add: s_def corrupt_record_def restart_def healthy_storage_def)
  have f: "conf_file (LittleFS s) = Some (rec[5 := 0x58])"
    by (simp add: s_def corrupt_record_def restart_def conf_file_stored)
  have "length rec = 113 + 3" by (simp add: rec_def len_cfg)
  moreover have "crc8_ref (take 112 rec) = rec ! 112"
    by (simp add: rec_def len_cfg nth_append)
  ultimately have intact: "intact_record 3 (Some rec)"
    by (rule intact_recordI)
  have "rec ! 5 = 0"
    by (simp add: rec_def config_bytes_def lab1_config_def c_bytes_def nth_append)
  then have v: "(0x58 :: byte) \<noteq> rec ! 5" by simp
  have k: "(5 :: nat) \<le> sizeof_serialpipe_config_t"
    by (simp add: sizeof_serialpipe_config_t_def)
  have bad: "\<not> intact_record 3 (conf_file (LittleFS s))
        \<or> (\<exists>rec k v. intact_record 3 (Some rec) \<and> k \<le> sizeof_serialpipe_config_t
                      \<and> v \<noteq> rec ! k \<and> conf_file (LittleFS s) = Some (rec[k := v]))"
    using intact k v f by blast
  from load_config_discards_bad_record [OF h bad, of zero_junk]
  have "map_outcome serialpipe_config (load_config 3 zero_junk s)
        = Done (serialpipe_config (set_default_config power_on))"
    by (auto simp: default_config_value)
  then show ?thesis
    using healthy_power_on by (simp add: saved and_then_Done s_def)
qed

subsection \<open>BridgeEngine: the tick\<close>

lemma serialPipe_cases:
  "serialPipe s = (if reads_key s then switch_to_configuration (after_console s)
                   else serial_to_clients (at_scan s))"
  by (simp add: serialPipe_def reads_key_def after_console_def at_scan_def Let_def
                case_prod_beta)

lemma fair_scan_foldl:
  "fst (fair_scan cs (m, out)) =
     foldl (\<lambda>m a. if m = 0 then a else min m a) m (writable_budgets cs)"
  by (induction cs arbitrary: m out)
     (auto simp: writable_budgets_def availableForWrite_def Let_def)

lemma writable_budgets_nonzero: "a \<in> set (writable_budgets cs) \<Longrightarrow> a \<noteq> 0"
  by (auto simp: writable_budgets_def)

lemma foldl_min_nonzero:
  "m \<noteq> 0 \<Longrightarrow> \<forall>a \<in> set ws. a \<noteq> 0 \<Longrightarrow>
   foldl (\<lambda>m a. if m = 0 then a else min m a) m ws = Min (insert m (set ws))"
proof (induction ws arbitrary: m)
  case Nil
  then show ?case by simp
next
  case (Cons a ws)
  then have "min m a \<noteq> 0" by (simp add: min_def)
  with Cons have "foldl (\<lambda>m a. if m = 0 then a else min m a) (min m a) ws
                  = Min (insert (min m a) (set ws))"
    by simp
  also have "\<dots> = Min (insert m (insert a (set ws)))"
    by (cases "ws = []") (simp_all add: min.assoc)
  finally show ?case using Cons.prems by simp
qed

lemma fair_scan_bound: "fst (fair_scan cs (0, out)) = fair_bound cs"
proof (cases "writable_budgets cs")
  case Nil
  then show ?thesis by (simp add: fair_scan_foldl fair_bound_def)
next
  case (Cons a ws)
  then have nz: "a \<noteq> 0" "\<forall>b \<in> set ws. b \<noteq> 0"
    using writable_budgets_nonzero [of _ cs] by simp_all
  from foldl_min_nonzero [OF this] Cons show ?thesis
    by (simp add: fair_scan_foldl fair_bound_def)
qed

lemma fair_scan_log:
  "snd (fair_scan cs (m, out)) = out @ replicate (length (congested cs)) LogCongested"
proof (induction cs arbitrary: m out)
  case Nil
  then show ?case by (simp add: congested_def)
next
  case (Cons c cs)
  then show ?case
    by (auto simp: congested_def availableForWrite_def Let_def replicate_app_Cons_same)
qed

lemma fair_scan_eq:
  "fair_scan cs (0, out) = (fair_bound cs, out @ replicate (length (congested cs)) LogCongested)"
  using fair_scan_bound [of cs out] fair_scan_log [of cs 0 out]
  by (simp add: prod_eq_iff)

lemma push_clients_eq:
  "sbuf \<noteq> [] \<Longrightarrow>
   push_clients sbuf (length sbuf) cs out = (map (deliver sbuf) cs, out)"
proof (induction cs arbitrary: out)
  case Nil
  then show ?case by simp
next
  case (Cons c cs)
  then show ?case
    by (auto simp: deliver_def availableForWrite_def WiFiClient_write_def Let_def)
qed

lemma deliver_Nil: "map (deliver []) cs = cs"
  by (induction cs) (simp_all add: deliver_def)

lemma serial_to_clients_unfold:
  "serial_to_clients t =
     (let t1 = t\<lparr>logger := (logger t)\<lparr>sw_out := sw_out (logger t)
                       @ replicate (length (congested (serverClients t))) LogCongested\<rparr>\<rparr>;
          sbuf = take (chunk_length t) (rx_buf (Serial t))
      in if chunk_length t \<noteq> 0
         then t1\<lparr>Serial := (Serial t)\<lparr>rx_buf := drop (chunk_length t) (rx_buf (Serial t))\<rparr>,
                 serverClients := fst (push_clients sbuf (chunk_length t) (serverClients t)
                                         (sw_out (logger t1))),
                 logger := (logger t1)\<lparr>sw_out :=
                              snd (push_clients sbuf (chunk_length t) (serverClients t)
                                         (sw_out (logger t1)))\<rparr>\<rparr>
         else t1)"
  by (simp add: serial_to_clients_def fair_scan_eq chunk_length_def Let_def
                HardwareSerial_readBytes_def case_prod_beta)

lemma serial_to_clients_eq:
  "serial_to_clients t =
     t\<lparr>logger := (logger t)\<lparr>sw_out := sw_out (logger t)
                       @ replicate (length (congested (serverClients t))) LogCongested\<rparr>,
       Serial := (Serial t)\<lparr>rx_buf := drop (chunk_length t) (rx_buf (Serial t))\<rparr>,
       serverClients := map (deliver (take (chunk_length t) (rx_buf (Serial t))))
                            (serverClients t)\<rparr>"
proof (cases "chunk_length t = 0")
  case True
  then show ?thesis
    by (simp add: serial_to_clients_unfold Let_def deliver_Nil)
next
  case False
  let ?n = "chunk_length t"
  let ?sbuf = "take ?n (rx_buf (Serial t))"
  have le: "?n \<le> length (rx_buf (Serial t))" by (simp add: chunk_length_def)
  then have len: "length ?sbuf = ?n" by simp
  with False have ne: "?sbuf \<noteq> []" by auto
  have push: "push_clients ?sbuf ?n (serverClients t) out = (map (deliver ?sbuf) (serverClients t), out)"
    for out
    using push_clients_eq [OF ne, of "serverClients t" out] by (simp only: len)
  show ?thesis
    using False
    by (simp add: serial_to_clients_unfold Let_def push)
qed

lemma logger_heartbeat: "logger (heartbeat s) = logger s"
  by (simp add: heartbeat_def Let_def)

lemma heartbeat_frame:
  "serverClients (heartbeat s) = serverClients s" "server (heartbeat s) = server s"
  "Serial (heartbeat s) = Serial s" "configuration_mode (heartbeat s) = configuration_mode s"
  by (simp_all add: heartbeat_def Let_def)

lemma after_console_frame:
  "serverClients (after_console s) = serverClients s" "server (after_console s) = server s"
  "Serial (after_console s) = Serial s"
  by (simp_all add: after_console_def poll_console_def case_prod_beta heartbeat_frame)

lemma reads_key_iff: "reads_key s \<longleftrightarrow> (\<exists>rest. sw_rx (logger s) = CONFIGURATION_KEY # rest)"
proof (cases "sw_rx (logger s)")
  case Nil
  then show ?thesis
    by (simp add: reads_key_def poll_console_def SoftwareSerial_read_def logger_heartbeat
                  CONFIGURATION_KEY_def)
next
  case (Cons b bs)
  then show ?thesis
    by (simp add: reads_key_def poll_console_def SoftwareSerial_read_def logger_heartbeat
                  word_uint_eq_iff)
qed

lemma sw_rx_after_console: "sw_rx (logger (after_console s)) = tl (sw_rx (logger s))"
  by (cases "sw_rx (logger s)")
     (simp_all add: after_console_def poll_console_def SoftwareSerial_read_def logger_heartbeat)

lemma sw_out_after_console: "sw_out (logger (after_console s)) = sw_out (logger s)"
  by (cases "sw_rx (logger s)")
     (simp_all add: after_console_def poll_console_def SoftwareSerial_read_def logger_heartbeat)

text \<open>
  Claim C6. In a tick whose console read returns the trigger character (the key is the
  next unread byte on the debug port), \<^verbatim>\<open>serialPipe\<close> logs the switch, toggles the UART
  pin routing back, reopens the UART at the console rate and sets
  \<^verbatim>\<open>configuration_mode\<close>; the listening socket and its backlog, every client slot with
  its unread and written bytes, and the UART's received and written bytes are as they
  were: nothing was accepted, drained or forwarded.
\<close>

theorem trigger_switches_mode_and_skips_bridging:
  assumes "sw_rx (logger s) = CONFIGURATION_KEY # rest"
  shows "configuration_mode (serialPipe s)
       \<and> swapped (Serial (serialPipe s)) = (\<not> swapped (Serial s))
       \<and> baud (Serial (serialPipe s)) = CONFIG_CONSOLE_BAUD_SERIAL
       \<and> sw_rx (logger (serialPipe s)) = rest
       \<and> sw_out (logger (serialPipe s)) = sw_out (logger s) @ [LogSwitching]
       \<and> server (serialPipe s) = server s
       \<and> serverClients (serialPipe s) = serverClients s
       \<and> tx_out (Serial (serialPipe s)) = tx_out (Serial s)
       \<and> rx_buf (Serial (serialPipe s)) = rx_buf (Serial s)"
proof -
  from assms have "reads_key s" by (auto simp: reads_key_iff)
  then have "serialPipe s = switch_to_configuration (after_console s)"
    by (simp add: serialPipe_cases)
  then show ?thesis
    using assms
    by (simp add: switch_to_configuration_def logger_print_def Let_def after_console_frame
                  sw_rx_after_console sw_out_after_console HardwareSerial_begin_def
                  HardwareSerial_swap_def)
qed

lemma free_slot_lowest_from:
  "k < length cs \<Longrightarrow> \<not> connected (cs ! k) \<Longrightarrow> \<forall>j<k. connected (cs ! j) \<Longrightarrow>
   free_slot cs i = i + k"
proof (induction cs arbitrary: k i)
  case Nil
  then show ?case by simp
next
  case (Cons c cs)
  show ?case
  proof (cases k)
    case 0
    with Cons.prems show ?thesis by simp
  next
    case (Suc k')
    with Cons.prems have "connected c" by auto
    moreover have "free_slot cs (Suc i) = Suc i + k'"
      using Cons.prems Suc by (intro Cons.IH) auto
    ultimately show ?thesis using Suc by simp
  qed
qed

lemma free_slot_lowest:
  assumes "k < length cs" and "\<not> connected (cs ! k)" and "\<forall>j<k. connected (cs ! j)"
  shows "free_slot cs 0 = k"
  using free_slot_lowest_from [OF assms, of 0] by simp

lemma free_slot_none_from: "\<forall>x \<in> set cs. connected x \<Longrightarrow> free_slot cs i = i + length cs"
  by (induction cs arbitrary: i) simp_all

lemma free_slot_none:
  assumes "\<forall>x \<in> set cs. connected x"
  shows "free_slot cs 0 = length cs"
  using free_slot_none_from [OF assms, of 0] by simp

lemma drain_bytes_frame:
  "rx_buf (snd (drain_bytes bs ser)) = rx_buf ser"
  "baud (snd (drain_bytes bs ser)) = baud ser"
  "swapped (snd (drain_bytes bs ser)) = swapped ser"
  by (induction bs ser rule: drain_bytes.induct) simp_all

lemma drain_clients_frame:
  "rx_buf (snd (drain_clients cs ser)) = rx_buf ser"
  "baud (snd (drain_clients cs ser)) = baud ser"
  "swapped (snd (drain_clients cs ser)) = swapped ser"
  by (induction cs arbitrary: ser; simp add: case_prod_beta drain_bytes_frame)+

lemma drain_clients_map:
  assumes "\<And>c x. f (c\<lparr>inbox := x\<rparr>) = f c"
  shows "map f (fst (drain_clients cs ser)) = map f cs"
  by (induction cs arbitrary: ser) (simp_all add: case_prod_beta assms)

lemma clients_to_serial_frame:
  "server (clients_to_serial s) = server s"
  "logger (clients_to_serial s) = logger s"
  "rx_buf (Serial (clients_to_serial s)) = rx_buf (Serial s)"
  "map remote (serverClients (clients_to_serial s)) = map remote (serverClients s)"
  "map connected (serverClients (clients_to_serial s)) = map connected (serverClients s)"
  "map outbox (serverClients (clients_to_serial s)) = map outbox (serverClients s)"
  "map afw_scan (serverClients (clients_to_serial s)) = map afw_scan (serverClients s)"
  "map afw_push (serverClients (clients_to_serial s)) = map afw_push (serverClients s)"
  by (simp_all add: clients_to_serial_def case_prod_beta drain_clients_frame drain_clients_map)

lemma deliver_frame:
  "remote (deliver chunk c) = remote c" "connected (deliver chunk c) = connected c"
  by (simp_all add: deliver_def)

lemma map_deliver:
  "map remote (map (deliver chunk) cs) = map remote cs"
  "map connected (map (deliver chunk) cs) = map connected cs"
  by (auto simp: deliver_def)

lemma serial_to_clients_frame:
  "server (serial_to_clients t) = server t"
  "map remote (serverClients (serial_to_clients t)) = map remote (serverClients t)"
  "map connected (serverClients (serial_to_clients t)) = map connected (serverClients t)"
  by (simp_all add: serial_to_clients_eq deliver_frame)

lemma accept_client_free:
  assumes "backlog (server s) = c # rest" and "free_slot (serverClients s) 0 = k"
    and "k < length (serverClients s)"
  shows "accept_client s =
           logger_print (LogNewClient k)
             (s\<lparr>serverClients := (serverClients s)[k := c],
                server := (server s)\<lparr>backlog := rest\<rparr>\<rparr>)"
  using assms by (simp add: accept_client_def WiFiServer_available_def Let_def)

lemma accept_client_full:
  assumes "backlog (server s) = c # rest"
    and "free_slot (serverClients s) 0 = length (serverClients s)"
  shows "accept_client s =
           logger_print (LogServerBusy MAX_SRV_CLIENTS)
             (s\<lparr>server := (server s)\<lparr>backlog := rest,
                                      dropped := dropped (server s) @ [turn_away c]\<rparr>\<rparr>)"
  using assms by (simp add: accept_client_def WiFiServer_available_def Let_def)

lemma accept_client_backlog:
  "backlog (server (accept_client s)) = tl (backlog (server s))"
  by (cases "backlog (server s)")
     (simp_all add: accept_client_def WiFiServer_available_def Let_def logger_print_def)

lemma switch_frame: "server (switch_to_configuration s) = server s"
  by (simp add: switch_to_configuration_def logger_print_def Let_def)

lemma backlog_serialPipe:
  "backlog (server (serialPipe s)) =
     (if reads_key s then backlog (server s) else tl (backlog (server s)))"
  by (simp add: serialPipe_cases switch_frame after_console_frame at_scan_def
                serial_to_clients_frame clients_to_serial_frame accept_client_backlog)

lemma accept_client_Serial: "Serial (accept_client s) = Serial s"
  by (simp add: accept_client_def Let_def logger_print_def case_prod_beta)

lemma rx_buf_at_scan: "rx_buf (Serial (at_scan s)) = rx_buf (Serial s)"
  by (simp add: at_scan_def clients_to_serial_frame accept_client_Serial after_console_frame)

text \<open>
  Claim C4, as amended. In a tick that does not switch modes, the chunk length is
  \<open>min (available, bound, 512)\<close>, where the bound is the least budget among the connected
  clients with a budget other than zero (0 when there is none); that many bytes leave the
  UART's receive buffer and are appended, whole, to exactly the connected clients whose
  budget at write time is at least the chunk length, and to no other; each connected
  client with a zero budget is logged and none is disconnected.
\<close>

theorem fan_out_of_a_tick:
  assumes "\<not> reads_key s"
  shows "chunk_length (at_scan s)
           = min (min (length (rx_buf (Serial s))) (fair_bound (serverClients (at_scan s)))) 512
       \<and> rx_buf (Serial (serialPipe s)) = drop (chunk_length (at_scan s)) (rx_buf (Serial s))
       \<and> serverClients (serialPipe s)
           = map (deliver (take (chunk_length (at_scan s)) (rx_buf (Serial s))))
                 (serverClients (at_scan s))
       \<and> sw_out (logger (serialPipe s))
           = sw_out (logger (at_scan s))
             @ replicate (length (congested (serverClients (at_scan s)))) LogCongested
       \<and> map connected (serverClients (serialPipe s)) = map connected (serverClients (at_scan s))"
proof -
  from assms have "serialPipe s = serial_to_clients (at_scan s)"
    by (simp add: serialPipe_cases)
  then show ?thesis
    by (simp add: serial_to_clients_eq rx_buf_at_scan deliver_frame)
       (simp add: chunk_length_def rx_buf_at_scan STACK_PROTECTOR_def)
qed

lemma congested_zero_bound:
  assumes "\<forall>c \<in> set cs. \<not> connected c \<or> afw_scan c = 0"
  shows "fair_bound cs = 0"
proof -
  from assms have "filter (\<lambda>c. connected c \<and> afw_scan c \<noteq> 0) cs = []"
    by (auto simp: filter_empty_conv)
  then show ?thesis by (simp add: fair_bound_def writable_budgets_def)
qed

text \<open>
  Claim C10. In a tick that does not switch modes, when at the fairness scan no slot is
  connected or every connected client reports zero room, \<open>maxToTcp\<close> is 0, the chunk
  length is 0, the UART's received bytes stay where they are and no client is written to.
\<close>

theorem no_writable_client_reads_nothing:
  assumes "\<not> reads_key s"
    and "\<forall>c \<in> set (serverClients (at_scan s)). \<not> connected c \<or> afw_scan c = 0"
  shows "fst (fair_scan (serverClients (at_scan s)) (0, sw_out (logger (at_scan s)))) = 0
       \<and> chunk_length (at_scan s) = 0
       \<and> rx_buf (Serial (serialPipe s)) = rx_buf (Serial s)
       \<and> serverClients (serialPipe s) = serverClients (at_scan s)"
proof -
  note z = congested_zero_bound [OF assms(2)]
  then have n: "chunk_length (at_scan s) = 0" by (simp add: chunk_length_def)
  from assms(1) have "serialPipe s = serial_to_clients (at_scan s)"
    by (simp add: serialPipe_cases)
  then show ?thesis
    by (simp add: serial_to_clients_eq n z fair_scan_bound deliver_Nil rx_buf_at_scan)
qed

lemma not_reads_key_bridge_with: "\<not> reads_key (bridge_with cs pending)"
  by (simp add: reads_key_iff bridge_with_def power_on_def)

lemma drain_clients_no_input:
  "\<forall>c \<in> set cs. inbox c = [] \<Longrightarrow> drain_clients cs ser = (cs, ser)"
  by (induction cs) simp_all

lemma clients_to_serial_no_input:
  "\<forall>c \<in> set (serverClients t). inbox c = [] \<Longrightarrow> clients_to_serial t = t"
  by (simp add: clients_to_serial_def drain_clients_no_input)

lemma at_scan_bridge_with:
  assumes "\<forall>c \<in> set cs. inbox c = []"
  shows "serverClients (at_scan (bridge_with cs pending)) = cs"
    and "rx_buf (Serial (bridge_with cs pending)) = pending"
proof -
  have cs: "serverClients (after_console (bridge_with cs pending)) = cs"
    by (simp add: after_console_frame bridge_with_def)
  have "backlog (server (after_console (bridge_with cs pending))) = []"
    by (simp add: after_console_frame bridge_with_def power_on_def)
  then have "accept_client (after_console (bridge_with cs pending))
             = after_console (bridge_with cs pending)"
    by (simp add: accept_client_def)
  then have "at_scan (bridge_with cs pending) = after_console (bridge_with cs pending)"
    using assms cs by (simp add: at_scan_def clients_to_serial_no_input)
  with cs show "serverClients (at_scan (bridge_with cs pending)) = cs" by simp
  show "rx_buf (Serial (bridge_with cs pending)) = pending"
    by (simp add: bridge_with_def)
qed

lemma fair_bound_50_10: "fair_bound [client_with_budget 101 50, client_with_budget 102 10] = 10"
  by (simp add: fair_bound_def writable_budgets_def client_with_budget_def no_client_def)

lemma fair_bound_50_10_100:
  "fair_bound [client_with_budget 101 50, client_with_budget 102 10, client_with_budget 103 100]
   = 10"
  by (simp add: fair_bound_def writable_budgets_def client_with_budget_def no_client_def)

lemma inbox_client_with_budget: "inbox (client_with_budget r n) = []"
  by (simp add: client_with_budget_def no_client_def)

lemma deliver_client_with_budget:
  "chunk \<noteq> [] \<Longrightarrow> length chunk \<le> n \<Longrightarrow>
   outbox (deliver chunk (client_with_budget r n)) = chunk"
  by (simp add: deliver_def client_with_budget_def no_client_def)

lemma fair_bound_50_0_100:
  "fair_bound [client_with_budget 101 50, client_with_budgets 102 0 10,
               client_with_budget 103 100] = 50"
  by (simp add: fair_bound_def writable_budgets_def client_with_budget_def
                client_with_budgets_def no_client_def)

lemma inbox_client_with_budgets: "inbox (client_with_budgets r n m) = []"
  by (simp add: client_with_budgets_def no_client_def)

lemma deliver_client_with_budgets:
  "outbox (deliver chunk (client_with_budgets r n m))
   = (if chunk \<noteq> [] \<and> length chunk \<le> m then chunk else [])"
  by (simp add: deliver_def client_with_budgets_def no_client_def)

text \<open>
  Two ticks: budgets 50 and 10 with 40 bytes waiting give a chunk of 10 bytes to both
  slots; a slot that reported 0 at the scan and 10 at the push is the one case in which
  a chunk of 40 bytes passes a slot with 10 bytes of room.
\<close>

theorem fan_out_of_a_tick_witness:
  "\<not> reads_key (bridge_with [client_with_budget 101 50, client_with_budget 102 10]
                             (replicate 40 0x55))
   \<and> rx_buf (Serial (serialPipe
        (bridge_with [client_with_budget 101 50, client_with_budget 102 10] (replicate 40 0x55))))
     = replicate 30 0x55
   \<and> map outbox (serverClients (serialPipe
        (bridge_with [client_with_budget 101 50, client_with_budget 102 10] (replicate 40 0x55))))
     = [replicate 10 0x55, replicate 10 0x55]
   \<and> map outbox (serverClients (serialPipe
        (bridge_with [client_with_budget 101 50, client_with_budgets 102 0 10,
                      client_with_budget 103 100] (replicate 40 0x55))))
     = [replicate 40 0x55, [], replicate 40 0x55]"
proof -
  define cs where "cs = [client_with_budget 101 50, client_with_budget 102 10]"
  define s where "s = bridge_with cs (replicate 40 0x55)"
  have nk: "\<not> reads_key s" by (simp add: s_def not_reads_key_bridge_with)
  have "\<forall>c \<in> set cs. inbox c = []" by (simp add: cs_def inbox_client_with_budget)
  then have at: "serverClients (at_scan s) = cs" and rx: "rx_buf (Serial s) = replicate 40 0x55"
    by (simp_all add: s_def at_scan_bridge_with)
  have b: "fair_bound cs = 10" by (simp add: cs_def fair_bound_50_10)
  note t = fan_out_of_a_tick [OF nk]
  from t have n: "chunk_length (at_scan s) = 10" by (simp add: at rx b)
  from t have r1: "rx_buf (Serial (serialPipe s)) = replicate 30 0x55"
    by (simp add: n rx)
  from t have "serverClients (serialPipe s) = map (deliver (replicate 10 0x55)) cs"
    by (simp add: n rx at)
  then have r2: "map outbox (serverClients (serialPipe s)) = [replicate 10 0x55, replicate 10 0x55]"
    by (simp add: cs_def deliver_client_with_budget)
  define cs' where "cs' = [client_with_budget 101 50, client_with_budgets 102 0 10,
                           client_with_budget 103 100]"
  define s' where "s' = bridge_with cs' (replicate 40 0x55)"
  have nk': "\<not> reads_key s'" by (simp add: s'_def not_reads_key_bridge_with)
  have "\<forall>c \<in> set cs'. inbox c = []"
    by (simp add: cs'_def inbox_client_with_budget inbox_client_with_budgets)
  then have at': "serverClients (at_scan s') = cs'"
    and rx': "rx_buf (Serial s') = replicate 40 0x55"
    by (simp_all add: s'_def at_scan_bridge_with)
  have b': "fair_bound cs' = 50" by (simp add: cs'_def fair_bound_50_0_100)
  note t' = fan_out_of_a_tick [OF nk']
  from t' have n': "chunk_length (at_scan s') = 40" by (simp add: at' rx' b')
  from t' have "serverClients (serialPipe s') = map (deliver (replicate 40 0x55)) cs'"
    by (simp add: n' rx' at')
  then have r3: "map outbox (serverClients (serialPipe s'))
                 = [replicate 40 0x55, [], replicate 40 0x55]"
    by (simp add: cs'_def deliver_client_with_budget deliver_client_with_budgets)
  from nk r1 r2 r3 show ?thesis unfolding s_def cs_def s'_def cs'_def by simp
qed

text \<open>
  The example of claim C4 does not hold: with budgets 50, 10 and 100 and 40 bytes
  waiting, the bound is 10, so the chunk has 10 bytes, 30 stay in the UART, and every one
  of the three slots gets the chunk, the slot with budget 10 included. The same with the
  two slots of the shipped build and budgets 50 and 10.
\<close>

theorem fan_out_example_counterexample:
  "map (length \<circ> outbox) (serverClients (serialPipe
      (bridge_with [client_with_budget 101 50, client_with_budget 102 10,
                    client_with_budget 103 100]
                   (replicate 40 0x55))))
     = [10, 10, 10]
   \<and> length (rx_buf (Serial (serialPipe
      (bridge_with [client_with_budget 101 50, client_with_budget 102 10,
                    client_with_budget 103 100]
                   (replicate 40 0x55)))))
     = 30
   \<and> map (length \<circ> outbox) (serverClients (serialPipe
      (bridge_with [client_with_budget 101 50, client_with_budget 102 10] (replicate 40 0x55))))
     = [10, 10]"
proof -
  have three: "map (length \<circ> outbox) (serverClients (serialPipe s)) = [10, 10, 10]
               \<and> length (rx_buf (Serial (serialPipe s))) = 30"
    if s: "s = bridge_with cs (replicate 40 0x55)"
      and cs: "cs = [client_with_budget 101 50, client_with_budget 102 10,
                     client_with_budget 103 100]"
    for s cs
  proof -
    have nk: "\<not> reads_key s" by (simp add: s not_reads_key_bridge_with)
    have "\<forall>c \<in> set cs. inbox c = []" by (simp add: cs inbox_client_with_budget)
    then have at: "serverClients (at_scan s) = cs" and rx: "rx_buf (Serial s) = replicate 40 0x55"
      by (simp_all add: s at_scan_bridge_with)
    have b: "fair_bound cs = 10" by (simp add: cs fair_bound_50_10_100)
    have n: "chunk_length (at_scan s) = 10"
      by (simp add: chunk_length_def rx_buf_at_scan at rx b STACK_PROTECTOR_def)
    have sp: "serialPipe s = serial_to_clients (at_scan s)"
      using nk by (simp add: serialPipe_cases)
    have "serverClients (serialPipe s) = map (deliver (replicate 10 0x55)) cs"
      by (simp add: sp serial_to_clients_eq n rx_buf_at_scan rx at)
    then have "map (length \<circ> outbox) (serverClients (serialPipe s)) = [10, 10, 10]"
      by (simp add: cs deliver_client_with_budget)
    moreover have "length (rx_buf (Serial (serialPipe s))) = 30"
      by (simp add: sp serial_to_clients_eq n rx_buf_at_scan rx)
    ultimately show ?thesis by simp
  qed
  have two: "map (length \<circ> outbox) (serverClients (serialPipe s)) = [10, 10]"
    if s: "s = bridge_with cs (replicate 40 0x55)"
      and cs: "cs = [client_with_budget 101 50, client_with_budget 102 10]"
    for s cs
  proof -
    have nk: "\<not> reads_key s" by (simp add: s not_reads_key_bridge_with)
    have "\<forall>c \<in> set cs. inbox c = []" by (simp add: cs inbox_client_with_budget)
    then have at: "serverClients (at_scan s) = cs" and rx: "rx_buf (Serial s) = replicate 40 0x55"
      by (simp_all add: s at_scan_bridge_with)
    have b: "fair_bound cs = 10" by (simp add: cs fair_bound_50_10)
    have n: "chunk_length (at_scan s) = 10"
      by (simp add: chunk_length_def rx_buf_at_scan at rx b STACK_PROTECTOR_def)
    have sp: "serialPipe s = serial_to_clients (at_scan s)"
      using nk by (simp add: serialPipe_cases)
    have "serverClients (serialPipe s) = map (deliver (replicate 10 0x55)) cs"
      by (simp add: sp serial_to_clients_eq n rx_buf_at_scan rx at)
    then show ?thesis
      by (simp add: cs deliver_client_with_budget)
  qed
  from three [OF refl refl] two [OF refl refl] show ?thesis by simp
qed

theorem no_writable_client_reads_nothing_witness:
  "\<not> reads_key (bridge_with [client_with_budget 101 0, no_client] (replicate 40 0x55))
   \<and> rx_buf (Serial (serialPipe
        (bridge_with [client_with_budget 101 0, no_client] (replicate 40 0x55))))
     = replicate 40 0x55
   \<and> map outbox (serverClients (serialPipe
        (bridge_with [client_with_budget 101 0, no_client] (replicate 40 0x55))))
     = [[], []]"
proof -
  define cs where "cs = [client_with_budget 101 0, no_client]"
  define s where "s = bridge_with cs (replicate 40 0x55)"
  have nk: "\<not> reads_key s" by (simp add: s_def not_reads_key_bridge_with)
  have "\<forall>c \<in> set cs. inbox c = []"
    by (simp add: cs_def inbox_client_with_budget) (simp add: no_client_def)
  then have at: "serverClients (at_scan s) = cs" and rx: "rx_buf (Serial s) = replicate 40 0x55"
    by (simp_all add: s_def at_scan_bridge_with)
  have h: "\<forall>c \<in> set (serverClients (at_scan s)). \<not> connected c \<or> afw_scan c = 0"
    by (simp add: at) (simp add: cs_def client_with_budget_def no_client_def)
  note t = no_writable_client_reads_nothing [OF nk h]
  from t have r1: "rx_buf (Serial (serialPipe s)) = replicate 40 0x55" by (simp add: rx)
  from t have "serverClients (serialPipe s) = cs" by (simp add: at)
  then have r2: "map outbox (serverClients (serialPipe s)) = [[], []]"
    by (simp add: cs_def client_with_budget_def no_client_def)
  from nk r1 r2 show ?thesis unfolding s_def cs_def by simp
qed

lemma bridging_tick_frame:
  assumes "\<not> reads_key s"
  shows "server (serialPipe s) = server (accept_client (after_console s))"
    and "map remote (serverClients (serialPipe s))
         = map remote (serverClients (accept_client (after_console s)))"
    and "map connected (serverClients (serialPipe s))
         = map connected (serverClients (accept_client (after_console s)))"
  using assms
  by (simp_all add: serialPipe_cases at_scan_def serial_to_clients_frame clients_to_serial_frame)

text \<open>
  Claim C5. A tick takes at most one connection off the backlog. In a tick that does not
  switch modes and finds a connection waiting, that connection is taken; it goes into the
  lowest-indexed slot that is not connected when there is one, and the other slots keep
  their clients; when every slot is connected it is sent \<^verbatim>\<open>busy\<close> and a line end, is
  closed, and the slots keep their clients.
\<close>

theorem accept_at_most_one_connection:
  "(backlog (server (serialPipe s)) = backlog (server s)
      \<or> backlog (server (serialPipe s)) = tl (backlog (server s)))
   \<and> (\<not> reads_key s \<and> backlog (server s) = c # rest \<longrightarrow>
        backlog (server (serialPipe s)) = rest
      \<and> (\<forall>k. k < length (serverClients s) \<and> \<not> connected (serverClients s ! k)
               \<and> (\<forall>j<k. connected (serverClients s ! j)) \<longrightarrow>
            map remote (serverClients (serialPipe s)) = map remote ((serverClients s)[k := c])
          \<and> map connected (serverClients (serialPipe s))
              = map connected ((serverClients s)[k := c])
          \<and> dropped (server (serialPipe s)) = dropped (server s))
      \<and> ((\<forall>x \<in> set (serverClients s). connected x) \<longrightarrow>
            map remote (serverClients (serialPipe s)) = map remote (serverClients s)
          \<and> map connected (serverClients (serialPipe s)) = map connected (serverClients s)
          \<and> dropped (server (serialPipe s))
              = dropped (server s)
                @ [c\<lparr>outbox := outbox c @ c_bytes ''busy'' @ [0x0D, 0x0A],
                      connected := False\<rparr>]))"
proof (intro conjI impI allI)
  show "backlog (server (serialPipe s)) = backlog (server s)
        \<or> backlog (server (serialPipe s)) = tl (backlog (server s))"
    by (simp add: backlog_serialPipe)
next
  assume "\<not> reads_key s \<and> backlog (server s) = c # rest"
  then show "backlog (server (serialPipe s)) = rest"
    by (simp add: backlog_serialPipe)
next
  fix k
  assume a: "\<not> reads_key s \<and> backlog (server s) = c # rest"
    and k: "k < length (serverClients s) \<and> \<not> connected (serverClients s ! k)
            \<and> (\<forall>j<k. connected (serverClients s ! j))"
  let ?t = "after_console s"
  from k have fs: "free_slot (serverClients ?t) 0 = k"
    by (simp add: after_console_frame free_slot_lowest)
  from a have b: "backlog (server ?t) = c # rest" by (simp add: after_console_frame)
  from k have kl: "k < length (serverClients ?t)" by (simp add: after_console_frame)
  note acc = accept_client_free [OF b fs kl]
  note fr = bridging_tick_frame [of s]
  from a show "map remote (serverClients (serialPipe s)) = map remote ((serverClients s)[k := c])"
    by (simp add: fr acc logger_print_def after_console_frame)
  from a show "map connected (serverClients (serialPipe s))
               = map connected ((serverClients s)[k := c])"
    by (simp add: fr acc logger_print_def after_console_frame)
  from a show "dropped (server (serialPipe s)) = dropped (server s)"
    by (simp add: fr acc logger_print_def after_console_frame)
next
  assume a: "\<not> reads_key s \<and> backlog (server s) = c # rest"
    and f: "\<forall>x \<in> set (serverClients s). connected x"
  let ?t = "after_console s"
  from f have fs: "free_slot (serverClients ?t) 0 = length (serverClients ?t)"
    by (simp add: after_console_frame free_slot_none)
  from a have b: "backlog (server ?t) = c # rest" by (simp add: after_console_frame)
  note acc = accept_client_full [OF b fs]
  note fr = bridging_tick_frame [of s]
  from a show "map remote (serverClients (serialPipe s)) = map remote (serverClients s)"
    by (simp add: fr acc logger_print_def after_console_frame)
  from a show "map connected (serverClients (serialPipe s)) = map connected (serverClients s)"
    by (simp add: fr acc logger_print_def after_console_frame)
  from a show "dropped (server (serialPipe s))
               = dropped (server s)
                 @ [c\<lparr>outbox := outbox c @ c_bytes ''busy'' @ [0x0D, 0x0A],
                       connected := False\<rparr>]"
    by (simp add: fr acc logger_print_def after_console_frame turn_away_def)
qed

lemma reads_key_with_backlog: "\<not> reads_key (with_backlog q (bridge_with cs pending))"
  by (simp add: reads_key_iff with_backlog_def bridge_with_def power_on_def)

theorem accept_at_most_one_connection_witness:
  "\<not> reads_key (with_backlog [client_with_budget 107 80]
                  (bridge_with [client_with_budget 101 50, no_client] []))
   \<and> map remote (serverClients (serialPipe
        (with_backlog [client_with_budget 107 80]
           (bridge_with [client_with_budget 101 50, no_client] []))))
     = [101, 107]
   \<and> backlog (server (serialPipe
        (with_backlog [client_with_budget 107 80]
           (bridge_with [client_with_budget 101 50, no_client] []))))
     = []
   \<and> map remote (serverClients (serialPipe
        (with_backlog [client_with_budget 107 80]
           (bridge_with [client_with_budget 101 50, client_with_budget 102 10] []))))
     = [101, 102]
   \<and> map outbox (dropped (server (serialPipe
        (with_backlog [client_with_budget 107 80]
           (bridge_with [client_with_budget 101 50, client_with_budget 102 10] [])))))
     = [c_bytes ''busy'' @ [0x0D, 0x0A]]"
proof -
  define c where "c = client_with_budget 107 80"
  define cs1 where "cs1 = [client_with_budget 101 50, no_client]"
  define cs2 where "cs2 = [client_with_budget 101 50, client_with_budget 102 10]"
  define s1 where "s1 = with_backlog [c] (bridge_with cs1 [])"
  define s2 where "s2 = with_backlog [c] (bridge_with cs2 [])"
  have nk1: "\<not> reads_key s1" and nk2: "\<not> reads_key s2"
    by (simp_all add: s1_def s2_def reads_key_with_backlog)
  have b1: "backlog (server s1) = c # []" and b2: "backlog (server s2) = c # []"
    by (simp_all add: s1_def s2_def with_backlog_def)
  have sc1: "serverClients s1 = cs1" and sc2: "serverClients s2 = cs2"
    by (simp_all add: s1_def s2_def with_backlog_def bridge_with_def)
  have d2: "dropped (server s2) = []"
    by (simp add: s2_def with_backlog_def bridge_with_def power_on_def)
  have k: "1 < length (serverClients s1) \<and> \<not> connected (serverClients s1 ! 1)
           \<and> (\<forall>j<1. connected (serverClients s1 ! j))"
    by (simp add: sc1 cs1_def client_with_budget_def no_client_def)
  have f: "\<forall>x \<in> set (serverClients s2). connected x"
    by (simp add: sc2 cs2_def client_with_budget_def no_client_def)
  note t1 = accept_at_most_one_connection [of s1 c "[]"]
  note t2 = accept_at_most_one_connection [of s2 c "[]"]
  from t1 nk1 b1 k have "map remote (serverClients (serialPipe s1)) = map remote (cs1[1 := c])"
    unfolding sc1 [symmetric] by blast
  then have r1: "map remote (serverClients (serialPipe s1)) = [101, 107]"
    by (simp add: cs1_def c_def client_with_budget_def no_client_def)
  from t1 nk1 b1 have r2: "backlog (server (serialPipe s1)) = []" by blast
  from t2 nk2 b2 f have "map remote (serverClients (serialPipe s2)) = map remote cs2"
    unfolding sc2 [symmetric] by blast
  then have r3: "map remote (serverClients (serialPipe s2)) = [101, 102]"
    by (simp add: cs2_def client_with_budget_def no_client_def)
  from t2 nk2 b2 f have "dropped (server (serialPipe s2))
      = dropped (server s2) @ [c\<lparr>outbox := outbox c @ c_bytes ''busy'' @ [0x0D, 0x0A],
                                  connected := False\<rparr>]"
    by blast
  then have r4: "map outbox (dropped (server (serialPipe s2))) = [c_bytes ''busy'' @ [0x0D, 0x0A]]"
    by (simp add: d2 c_def client_with_budget_def no_client_def)
  from nk1 r1 r2 r3 r4 show ?thesis unfolding s1_def s2_def cs1_def cs2_def c_def by simp
qed

subsection \<open>ModeSelector and start-up\<close>

theorem trigger_switches_mode_and_skips_bridging_witness:
  "sw_rx (logger (with_console [CONFIGURATION_KEY, 0x0A]
        (with_backlog [client_with_budget 107 80]
           (bridge_with [client_with_budget 101 50, no_client] (replicate 40 0x55)))))
     = CONFIGURATION_KEY # [0x0A]
   \<and> configuration_mode (serialPipe (with_console [CONFIGURATION_KEY, 0x0A]
        (with_backlog [client_with_budget 107 80]
           (bridge_with [client_with_budget 101 50, no_client] (replicate 40 0x55)))))
   \<and> \<not> swapped (Serial (serialPipe (with_console [CONFIGURATION_KEY, 0x0A]
        (with_backlog [client_with_budget 107 80]
           (bridge_with [client_with_budget 101 50, no_client] (replicate 40 0x55))))))
   \<and> backlog (server (serialPipe (with_console [CONFIGURATION_KEY, 0x0A]
        (with_backlog [client_with_budget 107 80]
           (bridge_with [client_with_budget 101 50, no_client] (replicate 40 0x55))))))
     = [client_with_budget 107 80]
   \<and> serverClients (serialPipe (with_console [CONFIGURATION_KEY, 0x0A]
        (with_backlog [client_with_budget 107 80]
           (bridge_with [client_with_budget 101 50, no_client] (replicate 40 0x55)))))
     = [client_with_budget 101 50, no_client]
   \<and> rx_buf (Serial (serialPipe (with_console [CONFIGURATION_KEY, 0x0A]
        (with_backlog [client_with_budget 107 80]
           (bridge_with [client_with_budget 101 50, no_client] (replicate 40 0x55))))))
     = replicate 40 0x55"
proof -
  define s where "s = with_console [CONFIGURATION_KEY, 0x0A]
        (with_backlog [client_with_budget 107 80]
           (bridge_with [client_with_budget 101 50, no_client] (replicate 40 0x55)))"
  have h: "sw_rx (logger s) = CONFIGURATION_KEY # [0x0A]"
    by (simp add: s_def with_console_def)
  have f: "swapped (Serial s)" "backlog (server s) = [client_with_budget 107 80]"
    "serverClients s = [client_with_budget 101 50, no_client]"
    "rx_buf (Serial s) = replicate 40 0x55"
    by (simp_all add: s_def with_console_def with_backlog_def bridge_with_def)
  from trigger_switches_mode_and_skips_bridging [OF h] h f
  show ?thesis unfolding s_def by simp
qed

lemma wait_for_key_found:
  "k < length polls \<Longrightarrow> (word_of_int (fst (polls ! k)) :: byte) = CONFIGURATION_KEY \<Longrightarrow>
   \<forall>i<k. (word_of_int (fst (polls ! i)) :: byte) \<noteq> CONFIGURATION_KEY \<and> snd (polls ! i) < 1000 \<Longrightarrow>
   wait_for_key polls = Some CONFIGURATION_KEY"
proof (induction polls arbitrary: k)
  case Nil
  then show ?case by simp
next
  case (Cons p polls)
  obtain r now where p: "p = (r, now)" by (cases p)
  show ?case
  proof (cases k)
    case 0
    with Cons.prems p show ?thesis by (simp add: Let_def)
  next
    case (Suc k')
    with Cons.prems have "(word_of_int r :: byte) \<noteq> CONFIGURATION_KEY" and "now < 1000"
      using p by auto
    moreover have "wait_for_key polls = Some CONFIGURATION_KEY"
      using Cons.prems Suc by (intro Cons.IH [of k']) auto
    ultimately show ?thesis
      by (simp add: p Let_def CONFIG_CONSOLE_ENTRY_DELAY_MS_def not_le [symmetric])
  qed
qed

lemma wait_for_key_elapsed:
  "k < length polls \<Longrightarrow> (word_of_int (fst (polls ! k)) :: byte) \<noteq> CONFIGURATION_KEY \<Longrightarrow>
   1000 \<le> snd (polls ! k) \<Longrightarrow>
   \<forall>i<k. (word_of_int (fst (polls ! i)) :: byte) \<noteq> CONFIGURATION_KEY \<and> snd (polls ! i) < 1000 \<Longrightarrow>
   wait_for_key polls = Some (word_of_int (fst (polls ! k)))"
proof (induction polls arbitrary: k)
  case Nil
  then show ?case by simp
next
  case (Cons p polls)
  obtain r now where p: "p = (r, now)" by (cases p)
  show ?case
  proof (cases k)
    case 0
    with Cons.prems p show ?thesis by (simp add: Let_def CONFIG_CONSOLE_ENTRY_DELAY_MS_def)
  next
    case (Suc k')
    with Cons.prems have "(word_of_int r :: byte) \<noteq> CONFIGURATION_KEY" and "now < 1000"
      using p by auto
    moreover have "wait_for_key polls = Some (word_of_int (fst (polls ! k')))"
      using Cons.prems Suc by (intro Cons.IH [of k']) auto
    ultimately show ?thesis
      using Suc by (simp add: p Let_def CONFIG_CONSOLE_ENTRY_DELAY_MS_def not_le [symmetric])
  qed
qed

lemma wait_for_key_decides:
  "\<exists>k<length polls. 1000 \<le> snd (polls ! k) \<Longrightarrow> wait_for_key polls \<noteq> None"
proof (induction polls)
  case Nil
  then show ?case by simp
next
  case (Cons p polls)
  obtain r now where p: "p = (r, now)" by (cases p)
  from Cons.prems obtain k where k: "k < length (p # polls)" "1000 \<le> snd ((p # polls) ! k)"
    by blast
  show ?case
  proof (cases "(word_of_int r :: byte) \<noteq> CONFIGURATION_KEY \<and> now < 1000")
    case False
    then show ?thesis
      by (auto simp: p Let_def CONFIG_CONSOLE_ENTRY_DELAY_MS_def not_less)
  next
    case True
    with k p obtain k' where "k = Suc k'" by (cases k) auto
    with k have "\<exists>k<length polls. 1000 \<le> snd (polls ! k)" by auto
    from Cons.IH [OF this] True show ?thesis
      by (simp add: p Let_def CONFIG_CONSOLE_ENTRY_DELAY_MS_def not_le [symmetric])
  qed
qed

lemma configuration_mode_setupSerialPipe:
  "setupSerialPipe s = Done s' \<Longrightarrow> configuration_mode s' = configuration_mode s"
  by (auto simp: setupSerialPipe_def Let_def logger_print_def split: option.splits)

lemma setupSerialPipe_returns:
  assumes "c_str_at 0 (config_bytes (serialpipe_config s)) = Some a"
    and "c_str_at 32 (config_bytes (serialpipe_config s)) = Some b"
    and "await_connection (status_answers (WiFi s)) = Some (dots, rest)"
  shows "\<exists>s'. setupSerialPipe s = Done s'"
  using assms by (simp add: setupSerialPipe_def Let_def logger_print_def)

lemma setupSerialPipe_started:
  "setupSerialPipe s = Done s' \<Longrightarrow>
     swapped (Serial s') = (\<not> swapped (Serial s)) \<and> no_delay (server s')
     \<and> port (server s') = ucast (listen_port (wifi (serialpipe_config s)))"
  by (auto simp: setupSerialPipe_def Let_def logger_print_def HardwareSerial_swap_def
                 HardwareSerial_begin_def split: option.splits)

lemma save_config_frame:
  "save_config pad junk s = Done s' \<Longrightarrow>
     configuration_mode s' = configuration_mode s \<and> WiFi s' = WiFi s \<and> Serial s' = Serial s"
  by (auto simp: save_config_def Let_def split: option.splits prod.splits if_splits)

lemma set_default_config_frame:
  "configuration_mode (set_default_config s) = configuration_mode s"
  "WiFi (set_default_config s) = WiFi s"
  "Serial (set_default_config s) = Serial s"
  by (simp_all add: set_default_config_def Let_def)

lemma load_record_frame:
  assumes "load_record pad junk s = Done s'"
  shows "configuration_mode s' = configuration_mode s \<and> WiFi s' = WiFi s \<and> Serial s' = Serial s"
proof (cases "File_size (LittleFS s) = sizeof_serialpipe_config_file_t pad")
  case False
  with assms have "save_config pad junk (set_default_config s) = Done s'"
    by (simp add: load_record_def Let_def)
  from save_config_frame [OF this] show ?thesis by (simp add: set_default_config_frame)
next
  case True
  let ?got = "File_readBytes (sizeof_serialpipe_config_file_t pad) (LittleFS s)"
  let ?sp = "?got @ map junk [length ?got ..< sizeof_serialpipe_config_file_t pad]"
  let ?s' = "s\<lparr>serialpipe_config := config_of_bytes (file_config ?sp)\<rparr>"
  from assms True
  have "save_config pad junk (set_default_config ?s') = Done s' \<or> s' = ?s'"
    by (auto simp: load_record_def Let_def split: option.splits if_splits)
  then show ?thesis
  proof
    assume "save_config pad junk (set_default_config ?s') = Done s'"
    from save_config_frame [OF this] show ?thesis by (simp add: set_default_config_frame)
  next
    assume "s' = ?s'"
    then show ?thesis by simp
  qed
qed

lemma load_config_frame:
  assumes "load_config pad junk s = Done s'"
  shows "configuration_mode s' = configuration_mode s \<and> WiFi s' = WiFi s \<and> Serial s' = Serial s"
proof -
  from assms obtain fs where "load_record pad junk (s\<lparr>LittleFS := fs\<rparr>) = Done s'"
    by (auto simp: load_config_def Let_def split: prod.splits if_splits)
  from load_record_frame [OF this] show ?thesis by simp
qed

lemma load_config_after_format:
  assumes m: "mount_answers (LittleFS s) = False # rest"
    and h: "healthy_storage pad ((LittleFS s)\<lparr>mount_answers := rest\<rparr>)"
  shows "load_config pad junk s =
           load_config pad junk
             (s\<lparr>LittleFS := LittleFS_format ((LittleFS s)\<lparr>mount_answers := rest\<rparr>)\<rparr>)"
proof -
  let ?fs = "LittleFS_format ((LittleFS s)\<lparr>mount_answers := rest\<rparr>)"
  have h': "healthy_storage pad ?fs"
    using h by (simp add: healthy_storage_def LittleFS_format_def)
  have b: "fst (LittleFS_begin ?fs)" by (rule healthy_begin(1) [OF h'])
  have "load_config pad junk s
        = load_record pad junk (s\<lparr>LittleFS := snd (LittleFS_begin ?fs)\<rparr>)"
    using b by (simp add: load_config_def LittleFS_begin_def m case_prod_beta)
  also have "\<dots> = load_config pad junk (s\<lparr>LittleFS := ?fs\<rparr>)"
    using load_config_healthy [of pad "s\<lparr>LittleFS := ?fs\<rparr>" junk] h' by simp
  finally show ?thesis .
qed

text \<open>
  Claim C7 fails on the code. The loop of \<^verbatim>\<open>setup()\<close> does not wait 1000 milliseconds
  for the operator: it compares \<^verbatim>\<open>millis()\<close>, the time since power-on, with
  \<^verbatim>\<open>CONFIG_CONSOLE_ENTRY_DELAY_MS\<close>, and keeps no time of its own start. For a boot
  whose \<^verbatim>\<open>load_config\<close> returns, with \<^verbatim>\<open>configuration_mode\<close> at its initialiser:
  a trigger character read before any poll has seen the clock at 1000 or more opens the
  configuration console; the first poll that reads another character, or none, with
  the clock at 1000 or more starts the bridge, which never sets \<^verbatim>\<open>configuration_mode\<close>
  and is up once the WiFi link is; the loop has decided as soon as the clock reads 1000;
  and when the first poll already finds the clock at 1000 or more, as after a
  \<^verbatim>\<open>load_config\<close> that had to format the flash, the bridge starts whatever the operator
  sends from then on.
\<close>

theorem boot_window_ends_at_uptime_1000:
  assumes ld: "load_config pad junk (console_opened s) = Done s2"
    and off: "\<not> configuration_mode s"
  shows
   "(\<forall>k < length polls.
        (word_of_int (fst (polls ! k)) :: byte) = CONFIGURATION_KEY
        \<and> (\<forall>i<k. (word_of_int (fst (polls ! i)) :: byte) \<noteq> CONFIGURATION_KEY
                  \<and> snd (polls ! i) < 1000)
        \<longrightarrow> setup_boot pad junk polls s = Done (setupConfigurationConsole s2)
          \<and> configuration_mode (setupConfigurationConsole s2))
    \<and> (\<forall>k < length polls.
        (word_of_int (fst (polls ! k)) :: byte) \<noteq> CONFIGURATION_KEY
        \<and> 1000 \<le> snd (polls ! k)
        \<and> (\<forall>i<k. (word_of_int (fst (polls ! i)) :: byte) \<noteq> CONFIGURATION_KEY
                  \<and> snd (polls ! i) < 1000)
        \<longrightarrow> setup_boot pad junk polls s = setupSerialPipe s2
          \<and> (\<forall>s3. setup_boot pad junk polls s = Done s3 \<longrightarrow> \<not> configuration_mode s3)
          \<and> (c_str_at 0 (config_bytes (serialpipe_config s2)) \<noteq> None
             \<and> c_str_at 32 (config_bytes (serialpipe_config s2)) \<noteq> None
             \<and> await_connection (status_answers (WiFi s)) \<noteq> None
             \<longrightarrow> (\<exists>s3. setup_boot pad junk polls s = Done s3
                       \<and> \<not> configuration_mode s3
                       \<and> swapped (Serial s3) = (\<not> swapped (Serial s))
                       \<and> no_delay (server s3)
                       \<and> port (server s3) = ucast (listen_port (wifi (serialpipe_config s2))))))
    \<and> ((\<exists>k < length polls. 1000 \<le> snd (polls ! k)) \<longrightarrow> wait_for_key polls \<noteq> None)
    \<and> (\<forall>r now rest.
         (word_of_int r :: byte) \<noteq> CONFIGURATION_KEY \<and> 1000 \<le> now
         \<longrightarrow> setup_boot pad junk ((r, now) # rest) s = setupSerialPipe s2)"
proof -
  note fr = load_config_frame [OF ld]
  have off2: "\<not> configuration_mode s2"
    using fr off by (simp add: console_opened_def)
  have wifi2: "WiFi s2 = WiFi s"
    using fr by (simp add: console_opened_def)
  have ser2: "swapped (Serial s2) = swapped (Serial s)"
    using fr by (simp add: console_opened_def HardwareSerial_begin_def)
  have bridge_off: "\<not> configuration_mode s3" if "setupSerialPipe s2 = Done s3" for s3
    using configuration_mode_setupSerialPipe [OF that] off2 by simp
  have bridge_up: "\<exists>s3. setupSerialPipe s2 = Done s3
                       \<and> \<not> configuration_mode s3
                       \<and> swapped (Serial s3) = (\<not> swapped (Serial s))
                       \<and> no_delay (server s3)
                       \<and> port (server s3) = ucast (listen_port (wifi (serialpipe_config s2)))"
    if "c_str_at 0 (config_bytes (serialpipe_config s2)) \<noteq> None
        \<and> c_str_at 32 (config_bytes (serialpipe_config s2)) \<noteq> None
        \<and> await_connection (status_answers (WiFi s)) \<noteq> None"
  proof -
    from that obtain a b dots rest
      where "c_str_at 0 (config_bytes (serialpipe_config s2)) = Some a"
        and "c_str_at 32 (config_bytes (serialpipe_config s2)) = Some b"
        and "await_connection (status_answers (WiFi s2)) = Some (dots, rest)"
      by (auto simp: wifi2)
    from setupSerialPipe_returns [OF this] obtain s3 where d: "setupSerialPipe s2 = Done s3"
      by blast
    from setupSerialPipe_started [OF d] bridge_off [OF d] d ser2 show ?thesis by simp
  qed
  have config: "setup_boot pad junk polls s = Done (setupConfigurationConsole s2)"
    if "k < length polls"
      and "(word_of_int (fst (polls ! k)) :: byte) = CONFIGURATION_KEY
           \<and> (\<forall>i<k. (word_of_int (fst (polls ! i)) :: byte) \<noteq> CONFIGURATION_KEY
                     \<and> snd (polls ! i) < 1000)" for k
  proof -
    from that have "wait_for_key polls = Some CONFIGURATION_KEY"
      by (intro wait_for_key_found [of k]) auto
    then show ?thesis by (simp add: setup_boot_def ld)
  qed
  have bridge: "setup_boot pad junk polls s = setupSerialPipe s2"
    if "k < length polls"
      and h: "(word_of_int (fst (polls ! k)) :: byte) \<noteq> CONFIGURATION_KEY
           \<and> 1000 \<le> snd (polls ! k)
           \<and> (\<forall>i<k. (word_of_int (fst (polls ! i)) :: byte) \<noteq> CONFIGURATION_KEY
                     \<and> snd (polls ! i) < 1000)" for k
  proof -
    from that have "wait_for_key polls = Some (word_of_int (fst (polls ! k)))"
      by (intro wait_for_key_elapsed [of k]) auto
    with h show ?thesis by (simp add: setup_boot_def ld)
  qed
  have late: "setup_boot pad junk ((r, now) # rest) s = setupSerialPipe s2"
    if "(word_of_int r :: byte) \<noteq> CONFIGURATION_KEY \<and> 1000 \<le> now" for r now rest
    using that by (simp add: setup_boot_def ld Let_def CONFIG_CONSOLE_ENTRY_DELAY_MS_def)
  have decided: "wait_for_key polls \<noteq> None" if "\<exists>k < length polls. 1000 \<le> snd (polls ! k)"
    using that by (rule wait_for_key_decides)
  show ?thesis
  proof (intro conjI allI impI)
    fix k
    assume "k < length polls"
      and "(word_of_int (fst (polls ! k)) :: byte) = CONFIGURATION_KEY
           \<and> (\<forall>i<k. (word_of_int (fst (polls ! i)) :: byte) \<noteq> CONFIGURATION_KEY
                     \<and> snd (polls ! i) < 1000)"
    then show "setup_boot pad junk polls s = Done (setupConfigurationConsole s2)"
      by (rule config)
    show "configuration_mode (setupConfigurationConsole s2)"
      by (simp add: setupConfigurationConsole_def)
  next
    fix k
    assume k: "k < length polls"
      and h: "(word_of_int (fst (polls ! k)) :: byte) \<noteq> CONFIGURATION_KEY
           \<and> 1000 \<le> snd (polls ! k)
           \<and> (\<forall>i<k. (word_of_int (fst (polls ! i)) :: byte) \<noteq> CONFIGURATION_KEY
                     \<and> snd (polls ! i) < 1000)"
    note b = bridge [OF k h]
    show "setup_boot pad junk polls s = setupSerialPipe s2" by (rule b)
    {
      fix s3
      assume "setup_boot pad junk polls s = Done s3"
      with b have "setupSerialPipe s2 = Done s3" by simp
      then show "\<not> configuration_mode s3" by (rule bridge_off)
    }
    {
      assume "c_str_at 0 (config_bytes (serialpipe_config s2)) \<noteq> None
              \<and> c_str_at 32 (config_bytes (serialpipe_config s2)) \<noteq> None
              \<and> await_connection (status_answers (WiFi s)) \<noteq> None"
      from bridge_up [OF this] b
      show "\<exists>s3. setup_boot pad junk polls s = Done s3
                       \<and> \<not> configuration_mode s3
                       \<and> swapped (Serial s3) = (\<not> swapped (Serial s))
                       \<and> no_delay (server s3)
                       \<and> port (server s3) = ucast (listen_port (wifi (serialpipe_config s2)))"
        by simp
    }
  next
    assume "\<exists>k < length polls. 1000 \<le> snd (polls ! k)"
    then show "wait_for_key polls \<noteq> None" by (rule decided)
  next
    fix r :: int and now :: u32 and rest :: "(int \<times> u32) list"
    assume "(word_of_int r :: byte) \<noteq> CONFIGURATION_KEY \<and> 1000 \<le> now"
    then show "setup_boot pad junk ((r, now) # rest) s = setupSerialPipe s2" by (rule late)
  qed
qed

text \<open>
  Claim C8 fails on the code. Whatever \<^verbatim>\<open>tx_power\<close> the loaded configuration holds,
  \<^verbatim>\<open>setupSerialPipe\<close> passes the constant \<^verbatim>\<open>DEFAULT_TX_POWER\<close> (12.0) to
  \<^verbatim>\<open>WiFi.setOutputPower\<close>, while it logs "TX Power set to" with the configured value.
\<close>

theorem setupSerialPipe_applies_fixed_tx_power:
  assumes "setupSerialPipe s = Done s'"
  shows "output_power (WiFi s') = DEFAULT_TX_POWER
       \<and> DEFAULT_TX_POWER = 0x41400000
       \<and> LogTxPowerSetTo (tx_power (wifi (serialpipe_config s))) \<in> set (sw_out (logger s'))
       \<and> serialpipe_config s' = serialpipe_config s"
  using assms
  by (auto simp: setupSerialPipe_def Let_def logger_print_def DEFAULT_TX_POWER_def
           split: option.splits)

lemma lab1_strings:
  "c_str_at 0 (config_bytes lab1_config) = Some (c_bytes ''lab1'')"
  "c_str_at 32 (config_bytes lab1_config) = Some (c_bytes ''secret123'')"
  by code_simp+

theorem setupSerialPipe_applies_fixed_tx_power_witness:
  "map_outcome (output_power \<circ> WiFi)
     (setupSerialPipe (with_wifi_answers [False, True]
                         (power_on\<lparr>serialpipe_config := lab1_config\<rparr>)))
   = Done 0x41400000
   \<and> tx_power (wifi lab1_config) = 0x41700000"
proof -
  define s where "s = with_wifi_answers [False, True] (power_on\<lparr>serialpipe_config := lab1_config\<rparr>)"
  have c: "serialpipe_config s = lab1_config"
    by (simp add: s_def with_wifi_answers_def)
  have "await_connection (status_answers (WiFi s)) = Some (Suc 0, [])"
    by (simp add: s_def with_wifi_answers_def)
  from setupSerialPipe_returns [OF _ _ this, of "c_bytes ''lab1''" "c_bytes ''secret123''"]
  obtain s' where d: "setupSerialPipe s = Done s'"
    by (auto simp: c lab1_strings)
  from setupSerialPipe_applies_fixed_tx_power [OF d]
  have "output_power (WiFi s') = 0x41400000" by simp
  with d have "map_outcome (output_power \<circ> WiFi) (setupSerialPipe s) = Done 0x41400000"
    by simp
  moreover have "tx_power (wifi lab1_config) = 0x41700000"
    by (simp add: lab1_config_def)
  ultimately show ?thesis unfolding s_def by simp
qed

lemma healthy_console_opened:
  "healthy_storage pad (LittleFS (console_opened s)) = healthy_storage pad (LittleFS s)"
  by (simp add: console_opened_def)

lemma default_strings:
  "c_str_at 0 (config_bytes
      \<lparr>wifi = \<lparr>ssid = c_bytes ''default'' @ replicate 25 0,
               psk = c_bytes ''undefined'' @ replicate 55 0,
               tx_power = 0x41400000, listen_port = 23\<rparr>,
       uart = \<lparr>log_baud_rate = 115200, dut_baud_rate = 115200\<rparr>\<rparr>) = Some (c_bytes ''default'')"
  "c_str_at 32 (config_bytes
      \<lparr>wifi = \<lparr>ssid = c_bytes ''default'' @ replicate 25 0,
               psk = c_bytes ''undefined'' @ replicate 55 0,
               tx_power = 0x41400000, listen_port = 23\<rparr>,
       uart = \<lparr>log_baud_rate = 115200, dut_baud_rate = 115200\<rparr>\<rparr>) = Some (c_bytes ''undefined'')"
  by code_simp+

lemma load_config_no_record:
  assumes h: "healthy_storage pad (LittleFS s)" and n: "conf_file (LittleFS s) = None"
  shows "\<exists>s2. load_config pad junk s = Done s2
              \<and> serialpipe_config s2 = serialpipe_config (set_default_config s)"
  using load_config_rejected [OF h, of junk] n
  by (simp add: intact_record_def set_default_config_def Let_def)

theorem boot_window_ends_at_uptime_1000_witness:
  "(word_of_int 99 :: byte) = CONFIGURATION_KEY
   \<and> map_outcome configuration_mode
       (setup_boot 3 zero_junk [(- 1, 1200), (99, 1250)]
          (with_wifi_answers [False, True] first_boot))
     = Done False
   \<and> map_outcome configuration_mode
       (setup_boot 3 zero_junk [(- 1, 200), (120, 400), (99, 600)]
          (with_wifi_answers [False, True] power_on))
     = Done True"
proof -
  define sF where "sF = with_wifi_answers [False, True] first_boot"
  define sP where "sP = with_wifi_answers [False, True] power_on"
  define pF :: "(int \<times> u32) list" where "pF = [(- 1, 1200), (99, 1250)]"
  define pP :: "(int \<times> u32) list" where "pP = [(- 1, 200), (120, 400), (99, 600)]"
  have key: "(word_of_int 99 :: byte) = CONFIGURATION_KEY"
    by (simp add: CONFIGURATION_KEY_def)
  have offF: "\<not> configuration_mode sF" and offP: "\<not> configuration_mode sP"
    by (simp_all add: sF_def sP_def with_wifi_answers_def first_boot_def power_on_def)
  have linkF: "await_connection (status_answers (WiFi sF)) \<noteq> None"
    by (simp add: sF_def with_wifi_answers_def)
  \<comment> \<open>the boot that formats the flash\<close>
  let ?fs = "LittleFS_format ((LittleFS (console_opened sF))\<lparr>mount_answers := []\<rparr>)"
  have m: "mount_answers (LittleFS (console_opened sF)) = False # []"
    by (simp add: console_opened_def sF_def with_wifi_answers_def first_boot_def)
  have hF: "healthy_storage 3 ((LittleFS (console_opened sF))\<lparr>mount_answers := []\<rparr>)"
    by (simp add: healthy_storage_def console_opened_def sF_def with_wifi_answers_def
                  first_boot_def sizeof_serialpipe_config_file_t_def
                  sizeof_serialpipe_config_t_def)
  have hF': "healthy_storage 3 (LittleFS ((console_opened sF)\<lparr>LittleFS := ?fs\<rparr>))"
    using hF by (simp add: healthy_storage_def LittleFS_format_def)
  have nF: "conf_file (LittleFS ((console_opened sF)\<lparr>LittleFS := ?fs\<rparr>)) = None"
    by (simp add: LittleFS_format_def)
  from load_config_no_record [OF hF' nF, of zero_junk]
  obtain sF2 where ldF: "load_config 3 zero_junk (console_opened sF) = Done sF2"
    and cF: "serialpipe_config sF2
             = serialpipe_config (set_default_config ((console_opened sF)\<lparr>LittleFS := ?fs\<rparr>))"
    by (auto simp: load_config_after_format [OF m hF])
  have strF: "c_str_at 0 (config_bytes (serialpipe_config sF2)) \<noteq> None"
             "c_str_at 32 (config_bytes (serialpipe_config sF2)) \<noteq> None"
    by (simp_all add: cF default_config_value default_strings)
  note tF = boot_window_ends_at_uptime_1000 [OF ldF offF, of pF]
  have lF: "0 < length pF" by (simp add: pF_def)
  have kF: "(word_of_int (fst (pF ! 0)) :: byte) \<noteq> CONFIGURATION_KEY
            \<and> 1000 \<le> snd (pF ! 0)
            \<and> (\<forall>i<0. (word_of_int (fst (pF ! i)) :: byte) \<noteq> CONFIGURATION_KEY
                      \<and> snd (pF ! i) < 1000)"
    by (simp add: CONFIGURATION_KEY_def pF_def)
  from conjunct1 [OF conjunct2 [OF tF]] lF kF strF linkF
  obtain sF3 where "setup_boot 3 zero_junk pF sF = Done sF3" and "\<not> configuration_mode sF3"
    by blast
  then have rF: "map_outcome configuration_mode (setup_boot 3 zero_junk pF sF) = Done False"
    by simp
  \<comment> \<open>the boot that finds the trigger in time\<close>
  have hP: "healthy_storage 3 (LittleFS (console_opened sP))"
    using healthy_power_on by (simp add: healthy_console_opened sP_def with_wifi_answers_def)
  have nP: "conf_file (LittleFS (console_opened sP)) = None"
    by (simp add: console_opened_def sP_def with_wifi_answers_def power_on_def)
  from load_config_no_record [OF hP nP, of zero_junk]
  obtain sP2 where ldP: "load_config 3 zero_junk (console_opened sP) = Done sP2"
    by blast
  note tP = boot_window_ends_at_uptime_1000 [OF ldP offP, of pP]
  have lP: "2 < length pP" by (simp add: pP_def)
  have kP: "(word_of_int (fst (pP ! 2)) :: byte) = CONFIGURATION_KEY
            \<and> (\<forall>i<2. (word_of_int (fst (pP ! i)) :: byte) \<noteq> CONFIGURATION_KEY
                      \<and> snd (pP ! i) < 1000)"
  proof (intro conjI allI impI)
    fix i :: nat
    assume "i < 2"
    then have i: "i = 0 \<or> i = 1" by arith
    from i show "(word_of_int (fst (pP ! i)) :: byte) \<noteq> CONFIGURATION_KEY"
      by (auto simp: CONFIGURATION_KEY_def pP_def)
    from i show "snd (pP ! i) < 1000"
      by (auto simp: pP_def)
  qed (simp add: CONFIGURATION_KEY_def pP_def)
  from conjunct1 [OF tP] lP kP
  have "setup_boot 3 zero_junk pP sP = Done (setupConfigurationConsole sP2)"
    and "configuration_mode (setupConfigurationConsole sP2)"
    by blast+
  then have rP: "map_outcome configuration_mode (setup_boot 3 zero_junk pP sP) = Done True"
    by simp
  from key rF rP show ?thesis unfolding sF_def sP_def pF_def pP_def by simp
qed

end
